theory Spec2Isabelle
  imports Main
begin

section \<open>Data model of the compose generator (internal/docker/docker_config.go)\<close>

text \<open>
  The fields of \<open>types.Member\<close> and \<open>types.Stack\<close> that \<open>CreateDockerCompose\<close> reads.
  The ports are Go \<open>int\<close>s; the generator only prints them with \<open>%d\<close> and never
  computes with them, so they are modelled as \<open>int\<close>.
\<close>

record Member =
  ID :: string
  ExposedFireflyPort :: int
  ExposedFireflyAdminPort :: int
  ExposedPostgresPort :: int
  ExposedIPFSApiPort :: int
  ExposedIPFSGWPort :: int
  ExposedDataexchangePort :: int
  External :: bool

record Stack =
  Members :: "Member list"
  Database :: string
  SwarmKey :: string

record HealthCheck =
  Test :: "string list"
  Interval :: string
  Timeout :: string
  Retries :: int

record LoggingConfig =
  Driver :: string
  Options :: "string \<rightharpoonup> string"

text \<open>
  \<open>Service\<close>: a Go map that is never written after its construction is a HOL map, the nil
  map reading as the empty one. \<open>DependsOn\<close> is written after construction (line 117), and
  Go panics on a write to a nil map, so there \<open>None\<close> is the nil map.
\<close>

record Service =
  Image :: string
  Build :: string
  Command :: string
  Environment :: "string \<rightharpoonup> string"
  Volumes :: "string list"
  Ports :: "string list"
  DependsOn :: "(string \<rightharpoonup> (string \<rightharpoonup> string)) option"
  HealthCheck :: "HealthCheck option"
  Logging :: "LoggingConfig option"

text \<open>
  \<open>DockerComposeConfig\<close>: \<open>Services\<close> is \<open>map[string]*Service\<close>, each pointer stored under
  one key only, so the map holds the services themselves. The top-level field \<open>Volumes\<close>
  (\<open>map[string]struct{}\<close>, a set of names) is called \<open>TopVolumes\<close> here, the name
  \<open>Volumes\<close> being taken by the field of \<open>Service\<close>.
\<close>

record DockerComposeConfig =
  Version :: string
  Services :: "string \<rightharpoonup> Service"
  TopVolumes :: "string set"

text \<open>Every error return and every panic of the modelled code.\<close>

datatype error =
    NilPointerDereference
  | AssignToNilMap
  | NotANumber
  | NonPositiveCount
  | TooManyExternal
  | EmptyName
  | NameConflict string
  | UnknownProvider string string "string list"
  | UnsupportedProvider
  | TooManyArgs
  | NoStackSpecified
  | StackNotFound string
  | ExternalError string

section \<open>Formatting\<close>

text \<open>\<open>fmt.Sprintf("%d", i)\<close>: the decimal digits, with a minus sign below zero.\<close>

definition digit_char :: "nat \<Rightarrow> char" where
  "digit_char d = char_of (48 + d)"

fun digits :: "nat \<Rightarrow> string" where
  "digits n = (if n < 10 then [digit_char n] else digits (n div 10) @ [digit_char (n mod 10)])"

declare digits.simps [simp del]

definition fmt_d :: "int \<Rightarrow> string" where
  "fmt_d i = (if i < 0 then CHR ''-'' # digits (nat (- i)) else digits (nat i))"

section \<open>CreateDockerCompose\<close>

definition StandardLogOptions :: LoggingConfig where
  "StandardLogOptions =
     \<lparr> Driver = ''json-file'',
       Options = [''max-size'' \<mapsto> ''10m'', ''max-file'' \<mapsto> ''1''] \<rparr>"

text \<open>The service literal of lines 81-92.\<close>

definition core_service :: "Member \<Rightarrow> Service" where
  "core_service member =
     \<lparr> Image = ''ghcr.io/hyperledger-labs/firefly:latest'',
       Build = '''',
       Command = '''',
       Environment = Map.empty,
       Volumes = [''firefly_core_'' @ ID member @ '':/etc/firefly''],
       Ports = [fmt_d (ExposedFireflyPort member) @ '':'' @ fmt_d (ExposedFireflyPort member),
                fmt_d (ExposedFireflyAdminPort member) @ '':'' @ fmt_d (ExposedFireflyAdminPort member)],
       DependsOn = Some [''dataexchange_'' @ ID member \<mapsto> [''condition'' \<mapsto> ''service_started'']],
       HealthCheck = None,
       Logging = Some StandardLogOptions \<rparr>"

text \<open>The service literal of lines 98-113.\<close>

definition postgres_service :: "Member \<Rightarrow> Service" where
  "postgres_service member =
     \<lparr> Image = ''postgres'',
       Build = '''',
       Command = '''',
       Environment = [''POSTGRES_PASSWORD'' \<mapsto> ''f1refly'',
                      ''PGDATA'' \<mapsto> ''/var/lib/postgresql/data/pgdata''],
       Volumes = [''postgres_'' @ ID member @ '':/var/lib/postgresql/data''],
       Ports = [fmt_d (ExposedPostgresPort member) @ '':5432''],
       DependsOn = None,
       HealthCheck = Some \<lparr> Test = [''CMD-SHELL'', ''pg_isready -U postgres''],
                            Interval = ''5s'', Timeout = ''3s'', Retries = 12 \<rparr>,
       Logging = Some StandardLogOptions \<rparr>"

text \<open>The service literal of lines 120-135.\<close>

definition ipfs_service :: "Stack \<Rightarrow> Member \<Rightarrow> Service" where
  "ipfs_service stack member =
     \<lparr> Image = ''ipfs/go-ipfs'',
       Build = '''',
       Command = '''',
       Environment = [''IPFS_SWARM_KEY'' \<mapsto> SwarmKey stack, ''LIBP2P_FORCE_PNET'' \<mapsto> ''1''],
       Volumes = [''ipfs_staging_'' @ ID member @ '':/export'',
                  ''ipfs_data_'' @ ID member @ '':/data/ipfs''],
       Ports = [fmt_d (ExposedIPFSApiPort member) @ '':5001'',
                fmt_d (ExposedIPFSGWPort member) @ '':8080''],
       DependsOn = None,
       HealthCheck = None,
       Logging = Some StandardLogOptions \<rparr>"

text \<open>The service literal of lines 140-145.\<close>

definition dataexchange_service :: "Member \<Rightarrow> Service" where
  "dataexchange_service member =
     \<lparr> Image = ''ghcr.io/hyperledger-labs/firefly-dataexchange-https:latest'',
       Build = '''',
       Command = '''',
       Environment = Map.empty,
       Volumes = [''dataexchange_'' @ ID member @ '':/data''],
       Ports = [fmt_d (ExposedDataexchangePort member) @ '':3000''],
       DependsOn = None,
       HealthCheck = None,
       Logging = Some StandardLogOptions \<rparr>"

text \<open>Lines 80-95: the core service and its volume, for a member that is not external.\<close>

definition emit_core :: "Member \<Rightarrow> DockerComposeConfig \<Rightarrow> DockerComposeConfig" where
  "emit_core member compose =
     (if \<not> External member
      then compose\<lparr> Services := (Services compose)(''firefly_core_'' @ ID member \<mapsto> core_service member),
                    TopVolumes := insert (''firefly_core_'' @ ID member) (TopVolumes compose) \<rparr>
      else compose)"

text \<open>
  Line 117: \<open>compose.Services["firefly_core_"+member.ID].DependsOn["postgres_"+member.ID] = ...\<close>.
  A key that is absent reads as the nil pointer, and selecting \<open>DependsOn\<close> of it panics;
  a write to a nil \<open>DependsOn\<close> map panics as well.
\<close>

definition amend_core :: "Member \<Rightarrow> DockerComposeConfig \<Rightarrow> error + DockerComposeConfig" where
  "amend_core member compose =
     (case Services compose (''firefly_core_'' @ ID member) of
        None \<Rightarrow> Inl NilPointerDereference
      | Some core \<Rightarrow>
          (case DependsOn core of
             None \<Rightarrow> Inl AssignToNilMap
           | Some deps \<Rightarrow>
               Inr (compose\<lparr> Services := (Services compose)(''firefly_core_'' @ ID member \<mapsto>
                      core\<lparr> DependsOn := Some (deps(''postgres_'' @ ID member \<mapsto>
                                               [''condition'' \<mapsto> ''service_healthy''])) \<rparr>) \<rparr>)))"

text \<open>Lines 97-118: the database service, its volume, and the amendment of the core service.\<close>

definition emit_postgres :: "Stack \<Rightarrow> Member \<Rightarrow> DockerComposeConfig \<Rightarrow> error + DockerComposeConfig" where
  "emit_postgres stack member compose =
     (if Database stack = ''postgres''
      then amend_core member
             (compose\<lparr> Services := (Services compose)(''postgres_'' @ ID member \<mapsto> postgres_service member),
                       TopVolumes := insert (''postgres_'' @ ID member) (TopVolumes compose) \<rparr>)
      else Inr compose)"

text \<open>Lines 120-138.\<close>

definition emit_ipfs :: "Stack \<Rightarrow> Member \<Rightarrow> DockerComposeConfig \<Rightarrow> DockerComposeConfig" where
  "emit_ipfs stack member compose =
     compose\<lparr> Services := (Services compose)(''ipfs_'' @ ID member \<mapsto> ipfs_service stack member),
              TopVolumes := insert (''ipfs_data_'' @ ID member)
                              (insert (''ipfs_staging_'' @ ID member) (TopVolumes compose)) \<rparr>"

text \<open>Lines 140-147.\<close>

definition emit_dataexchange :: "Member \<Rightarrow> DockerComposeConfig \<Rightarrow> DockerComposeConfig" where
  "emit_dataexchange member compose =
     compose\<lparr> Services := (Services compose)(''dataexchange_'' @ ID member \<mapsto> dataexchange_service member),
              TopVolumes := insert (''dataexchange_'' @ ID member) (TopVolumes compose) \<rparr>"

text \<open>One iteration of the loop of line 78.\<close>

definition member_step :: "Stack \<Rightarrow> Member \<Rightarrow> DockerComposeConfig \<Rightarrow> error + DockerComposeConfig" where
  "member_step stack member compose =
     (case emit_postgres stack member (emit_core member compose) of
        Inl e \<Rightarrow> Inl e
      | Inr compose' \<Rightarrow> Inr (emit_dataexchange member (emit_ipfs stack member compose')))"

fun members_loop :: "Stack \<Rightarrow> Member list \<Rightarrow> DockerComposeConfig \<Rightarrow> error + DockerComposeConfig" where
  "members_loop stack [] compose = Inr compose"
| "members_loop stack (member # rest) compose =
     (case member_step stack member compose of
        Inl e \<Rightarrow> Inl e
      | Inr compose' \<Rightarrow> members_loop stack rest compose')"

definition CreateDockerCompose :: "Stack \<Rightarrow> error + DockerComposeConfig" where
  "CreateDockerCompose stack =
     members_loop stack (Members stack)
       \<lparr> Version = ''2.1'', Services = Map.empty, TopVolumes = {} \<rparr>"

section \<open>The init command (cmd/init.go)\<close>

text \<open>
  \<open>strconv.Atoi\<close> of the Go standard library, for a 64-bit \<open>int\<close>: an optional sign, then
  at least one decimal digit and nothing else; a value outside the range of \<open>int\<close> is an
  error as well. The value returned beside a syntax error is 0, beside a range error the
  nearest bound.
\<close>

datatype NumError = ErrSyntax | ErrRange

definition is_digit :: "char \<Rightarrow> bool" where
  "is_digit c = (48 \<le> (of_char c :: nat) \<and> (of_char c :: nat) \<le> 57)"

definition digits_value :: "string \<Rightarrow> nat" where
  "digits_value s = foldl (\<lambda>n c. 10 * n + ((of_char c :: nat) - 48)) 0 s"

definition Atoi :: "string \<Rightarrow> int \<times> NumError option" where
  "Atoi s =
     (let neg = (s \<noteq> [] \<and> hd s = CHR ''-'');
          body = (if s \<noteq> [] \<and> (hd s = CHR ''-'' \<or> hd s = CHR ''+'') then tl s else s)
      in if body = [] \<or> \<not> list_all is_digit body then (0, Some ErrSyntax)
         else let n = int (digits_value body) in
              if neg then (if 2 ^ 63 < n then (- (2 ^ 63), Some ErrRange) else (- n, None))
              else (if 2 ^ 63 \<le> n then (2 ^ 63 - 1, Some ErrRange) else (n, None)))"

text \<open>
  \<open>strings.TrimSpace\<close> of the Go standard library, on the bytes of the string: it removes
  from both ends the runes that \<open>unicode.IsSpace\<close> accepts, which are U+0009 to U+000D,
  U+0020, U+0085, U+00A0, U+1680, U+2000 to U+200A, U+2028, U+2029, U+202F, U+205F and
  U+3000. A rune decoded at the start (or, backwards, at the end) of a string is one of
  them exactly when the string starts (or ends) with its UTF-8 encoding, the decoder
  accepting no other encoding of a rune; bytes that are not valid UTF-8 decode as U+FFFD,
  which is no space, and stop the trimming. The ASCII fast path of the library gives the same
  result.
\<close>

definition space_encodings :: "string list" where
  "space_encodings =
     [[CHR 0x09], [CHR 0x0A], [CHR 0x0B], [CHR 0x0C], [CHR 0x0D], [CHR 0x20],
      [CHR 0xC2, CHR 0x85], [CHR 0xC2, CHR 0xA0],
      [CHR 0xE1, CHR 0x9A, CHR 0x80],
      [CHR 0xE2, CHR 0x80, CHR 0x80], [CHR 0xE2, CHR 0x80, CHR 0x81],
      [CHR 0xE2, CHR 0x80, CHR 0x82], [CHR 0xE2, CHR 0x80, CHR 0x83],
      [CHR 0xE2, CHR 0x80, CHR 0x84], [CHR 0xE2, CHR 0x80, CHR 0x85],
      [CHR 0xE2, CHR 0x80, CHR 0x86], [CHR 0xE2, CHR 0x80, CHR 0x87],
      [CHR 0xE2, CHR 0x80, CHR 0x88], [CHR 0xE2, CHR 0x80, CHR 0x89],
      [CHR 0xE2, CHR 0x80, CHR 0x8A],
      [CHR 0xE2, CHR 0x80, CHR 0xA8], [CHR 0xE2, CHR 0x80, CHR 0xA9],
      [CHR 0xE2, CHR 0x80, CHR 0xAF],
      [CHR 0xE2, CHR 0x81, CHR 0x9F],
      [CHR 0xE3, CHR 0x80, CHR 0x80]]"

text \<open>Removing from the start of a string, as long as there is one, an entry of a table.\<close>

function strip_leading :: "string list \<Rightarrow> string \<Rightarrow> string" where
  "strip_leading table s =
     (case find (\<lambda>e. e \<noteq> [] \<and> take (length e) s = e) table of
        None \<Rightarrow> s
      | Some e \<Rightarrow> strip_leading table (drop (length e) s))"
  by pat_completeness auto
termination
proof (relation "measure (\<lambda>(table, s). length s)")
  show "wf (measure (\<lambda>(table, s). length s))" by simp
next
  fix table :: "string list" and s e :: string
  assume "find (\<lambda>e. e \<noteq> [] \<and> take (length e) s = e) table = Some e"
  then have e: "e \<noteq> []" "take (length e) s = e"
    by (auto simp: find_Some_iff)
  from e(2) have "length e \<le> length s"
    by (metis length_take min.cobounded1)
  with e(1) have "length s - length e < length s"
    by (cases e) auto
  then show "((table, drop (length e) s), (table, s)) \<in> measure (\<lambda>(table, s). length s)"
    by simp
qed

declare strip_leading.simps [simp del]

definition TrimSpace :: "string \<Rightarrow> string" where
  "TrimSpace s =
     rev (strip_leading (map rev space_encodings) (rev (strip_leading space_encodings s)))"

text \<open>
  Modelled from the spec: the provider registries of package \<open>stacks\<close>
  (\<open>DatabaseSelectionFromString\<close>, \<open>BlockchainProviderFromString\<close>,
  \<open>TokensProviderFromString\<close> and the token tables \<open>DBSelectionStrings\<close>,
  \<open>BlockchainProviderStrings\<close>, \<open>TokensProviderStrings\<close>), which are not among the
  sources. The spec (4.1): each registry is a closed set of valid string tokens; parsing is
  a case-sensitive exact match against the registry; unknown input fails with
  \<open>UnknownProvider{kind, input, validOptions}\<close>. The token tables are parameters, and a
  provider value is its token.
\<close>

record Registries =
  DBSelectionStrings :: "string list"
  BlockchainProviderStrings :: "string list"
  TokensProviderStrings :: "string list"

definition parse :: "string \<Rightarrow> string list \<Rightarrow> string \<Rightarrow> error + string" where
  "parse kind registry input =
     (if input \<in> set registry then Inr input else Inl (UnknownProvider kind input registry))"

definition DatabaseSelectionFromString :: "Registries \<Rightarrow> string \<Rightarrow> error + string" where
  "DatabaseSelectionFromString regs = parse ''database'' (DBSelectionStrings regs)"

definition BlockchainProviderFromString :: "Registries \<Rightarrow> string \<Rightarrow> error + string" where
  "BlockchainProviderFromString regs = parse ''blockchain provider'' (BlockchainProviderStrings regs)"

definition TokensProviderFromString :: "Registries \<Rightarrow> string \<Rightarrow> error + string" where
  "TokensProviderFromString regs = parse ''tokens provider'' (TokensProviderStrings regs)"

text \<open>
  Modelled from the spec: the provider value \<open>stacks.GoEthereum\<close>, whose declaration is not
  among the sources. Its token is taken to be \<open>geth\<close>, the provider that the message of
  line 282 names and the default of the flag (line 299).
\<close>

definition GoEthereum :: string where
  "GoEthereum = ''geth''"

text \<open>
  Modelled from the spec: the token table of the blockchain provider registry
  (\<open>stacks.BlockchainProviderStrings\<close>), which is not among the sources. The spec names no
  token of it; it says (4.2, item 4, and the design notes) that the registry accepts more
  tokens than the generator currently supports. The model holds the token of
  \<open>GoEthereum\<close> and one further token, which stands for the providers that the registry
  parses and the generator does not support; the other two tables hold the tokens that the
  sources name (\<open>postgres\<close> in line 97, the defaults of the flags in lines 298 and 300).
\<close>

definition further_provider :: string where
  "further_provider = ''further-provider''"

definition modelled_registries :: Registries where
  "modelled_registries =
     \<lparr> DBSelectionStrings = [''postgres'', ''sqlite3''],
       BlockchainProviderStrings = [GoEthereum, further_provider],
       TokensProviderStrings = [''erc1155''] \<rparr>"

text \<open>
  The package variables of \<open>cmd\<close> that the commands read: the flags and \<open>initOptions\<close>.
\<close>

record InitOptions =
  FireFlyBasePort :: int
  ServicesBasePort :: int
  ExternalProcesses :: int
  Verbose :: bool
  DatabaseSelection :: string
  TokensProvider :: string

record Flags =
  databaseSelection :: string
  blockchainProviderSelection :: string
  tokensProviderSelection :: string
  initOptions :: InitOptions
  verbose :: bool
  force :: bool

text \<open>
  The collaborators the commands call and the sources do not hold, as parameters: \<open>'w\<close> is
  the persisted storage and \<open>'s\<close> a loaded stack. \<open>CheckExists\<close> and \<open>LoadStack\<close> read the
  storage, \<open>InitStack\<close> and \<open>ResetStack\<close> may change it; \<open>prompt\<close> (given the prompt text
  and the validator) and \<open>promptRun\<close> (\<open>promptui.Prompt.Run\<close>, given the label) stand for
  what the user types. What the commands print is not modelled.
\<close>

record ('w, 's) Collaborators =
  CheckExists :: "'w \<Rightarrow> string \<Rightarrow> bool \<times> error option"
  prompt :: "string \<Rightarrow> (string \<Rightarrow> error option) \<Rightarrow> string \<times> error option"
  InitStack :: "string \<Rightarrow> int \<Rightarrow> InitOptions \<Rightarrow> 'w \<Rightarrow> error option \<times> 'w"
  promptRun :: "string \<Rightarrow> string \<times> error option"
  LoadStack :: "'w \<Rightarrow> string \<Rightarrow> error + 's"
  ResetStack :: "'s \<Rightarrow> bool \<Rightarrow> 'w \<Rightarrow> 'w"

text \<open>Lines 245-254.\<close>

definition validateName :: "('w, 's) Collaborators \<Rightarrow> 'w \<Rightarrow> string \<Rightarrow> error option" where
  "validateName c w stackName =
     (if TrimSpace stackName = '''' then Some EmptyName
      else (case CheckExists c w stackName of
              (exists, err) \<Rightarrow> if exists then Some (NameConflict stackName) else err))"

text \<open>Lines 256-265; \<open>initOptions.ExternalProcesses\<close> is the first argument.\<close>

definition validateCount :: "int \<Rightarrow> string \<Rightarrow> error option" where
  "validateCount externalProcesses input =
     (case Atoi input of
        (i, Some err) \<Rightarrow> Some NotANumber
      | (i, None) \<Rightarrow>
          if i \<le> 0 then Some NonPositiveCount
          else if externalProcesses \<ge> i then Some TooManyExternal
          else None)"

text \<open>Lines 267-273.\<close>

definition validateDatabaseProvider :: "Registries \<Rightarrow> string \<Rightarrow> error option" where
  "validateDatabaseProvider regs input =
     (case DatabaseSelectionFromString regs input of Inl err \<Rightarrow> Some err | Inr sel \<Rightarrow> None)"

text \<open>Lines 275-285.\<close>

definition validateBlockchainProvider :: "Registries \<Rightarrow> string \<Rightarrow> error option" where
  "validateBlockchainProvider regs input =
     (case BlockchainProviderFromString regs input of
        Inl err \<Rightarrow> Some err
      | Inr blockchainSelection \<Rightarrow>
          if blockchainSelection \<noteq> GoEthereum then Some UnsupportedProvider else None)"

text \<open>Lines 287-293.\<close>

definition validateTokensProvider :: "Registries \<Rightarrow> string \<Rightarrow> error option" where
  "validateTokensProvider regs input =
     (case TokensProviderFromString regs input of Inl err \<Rightarrow> Some err | Inr sel \<Rightarrow> None)"

text \<open>
  Lines 209-218: the stack name, validated when it is an argument, prompted for otherwise
  (the error of the prompt is dropped).
\<close>

definition read_name :: "('w, 's) Collaborators \<Rightarrow> string list \<Rightarrow> 'w \<Rightarrow> error + string" where
  "read_name c args w =
     (if length args > 0
      then (case validateName c w (args ! 0) of
              Some err \<Rightarrow> Inl err
            | None \<Rightarrow> Inr (args ! 0))
      else Inr (fst (prompt c ''stack name: '' (validateName c w))))"

text \<open>Lines 220-228: the member count, in the same way.\<close>

definition read_count :: "('w, 's) Collaborators \<Rightarrow> Flags \<Rightarrow> string list \<Rightarrow> error + string" where
  "read_count c fl args =
     (if length args > 1
      then (case validateCount (ExternalProcesses (initOptions fl)) (args ! 1) of
              Some err \<Rightarrow> Inl err
            | None \<Rightarrow> Inr (args ! 1))
      else Inr (fst (prompt c ''number of members: ''
                       (validateCount (ExternalProcesses (initOptions fl))))))"

text \<open>
  Lines 188-243: \<open>Args: cobra.MaximumNArgs(2)\<close> rejects more than two arguments before
  \<open>RunE\<close> runs; then the checks of \<open>RunE\<close> in the order of the source, and the call of
  \<open>InitStack\<close> with the options as lines 231-233 set them.
\<close>

definition initCmd ::
  "('w, 's) Collaborators \<Rightarrow> Registries \<Rightarrow> Flags \<Rightarrow> string list \<Rightarrow> 'w \<Rightarrow> error option \<times> 'w" where
  "initCmd c regs fl args w =
     (if length args > 2 then (Some TooManyArgs, w)
      else case validateDatabaseProvider regs (databaseSelection fl) of
        Some err \<Rightarrow> (Some err, w)
      | None \<Rightarrow>
     (case validateBlockchainProvider regs (blockchainProviderSelection fl) of
        Some err \<Rightarrow> (Some err, w)
      | None \<Rightarrow>
     (case validateTokensProvider regs (tokensProviderSelection fl) of
        Some err \<Rightarrow> (Some err, w)
      | None \<Rightarrow>
     (case read_name c args w of
        Inl err \<Rightarrow> (Some err, w)
      | Inr stackName \<Rightarrow>
     (case read_count c fl args of
        Inl err \<Rightarrow> (Some err, w)
      | Inr memberCountInput \<Rightarrow>
          InitStack c stackName (fst (Atoi memberCountInput))
            ((initOptions fl)\<lparr> Verbose := verbose fl,
               DatabaseSelection :=
                 (case DatabaseSelectionFromString regs (databaseSelection fl) of
                    Inr sel \<Rightarrow> sel | Inl err \<Rightarrow> ''''),
               TokensProvider :=
                 (case TokensProviderFromString regs (tokensProviderSelection fl) of
                    Inr sel \<Rightarrow> sel | Inl err \<Rightarrow> '''') \<rparr>) w)))))"

section \<open>The reset command (cmd/reset.go)\<close>

text \<open>
  \<open>strings.ToLower\<close> on the ASCII letters. Go also maps the upper-case letters beyond
  ASCII, multi-byte sequences whose lower case is multi-byte again, so the comparison of
  line 59 with \<open>"y"\<close> does not depend on them.
\<close>

definition to_lower :: "char \<Rightarrow> char" where
  "to_lower c = (if 65 \<le> (of_char c :: nat) \<and> (of_char c :: nat) \<le> 90
                 then char_of ((of_char c :: nat) + 32) else c)"

definition ToLower :: "string \<Rightarrow> string" where
  "ToLower s = map to_lower s"

text \<open>Lines 38-74.\<close>

definition resetCmd ::
  "('w, 's) Collaborators \<Rightarrow> Flags \<Rightarrow> string list \<Rightarrow> 'w \<Rightarrow> error option \<times> 'w" where
  "resetCmd c fl args w =
     (if length args = 0 then (Some NoStackSpecified, w)
      else let stackName = args ! 0 in
        (case CheckExists c w stackName of
           (exists, err) \<Rightarrow>
             if err \<noteq> None then (err, w)
             else if \<not> exists then (Some (StackNotFound stackName), w)
             else if \<not> force fl \<and>
                     (case promptRun c (''reset all data in FireFly stack '' @ [CHR 0x27] @ stackName @ [CHR 0x27]) of
                        (result, err) \<Rightarrow> err \<noteq> None \<or> ToLower result \<noteq> ''y'')
             then (None, w)
             else (case LoadStack c w stackName of
                     Inl err \<Rightarrow> (Some err, w)
                   | Inr stack \<Rightarrow> (None, ResetStack c stack (verbose fl) w))))"

section \<open>Reading a generated topology\<close>

text \<open>
  A published port is the host port, a colon and the container port: the host port is what
  precedes the first colon.
\<close>

definition host_port :: "string \<Rightarrow> string" where
  "host_port p = takeWhile (\<lambda>c. c \<noteq> CHR '':'') p"

text \<open>
  A volume mount is built as the volume name, a colon and the container path, the container
  paths being literals without a colon: the volume name is what precedes the last colon
  (for a member id without a colon, the only one).
\<close>

definition volume_name :: "string \<Rightarrow> string" where
  "volume_name e = rev (tl (dropWhile (\<lambda>c. c \<noteq> CHR '':'') (rev e)))"

text \<open>The \<open>dependsOn\<close> relation of a topology: a service and a key of its \<open>DependsOn\<close> map.\<close>

definition depends_on :: "DockerComposeConfig \<Rightarrow> (string \<times> string) set" where
  "depends_on compose =
     {(n, d). \<exists>s deps. Services compose n = Some s \<and> DependsOn s = Some deps \<and> d \<in> dom deps}"

text \<open>The names under which line 81, 98, 120 and 140 store the services of a member.\<close>

definition core_name :: "Member \<Rightarrow> string" where
  "core_name member = ''firefly_core_'' @ ID member"

definition postgres_name :: "Member \<Rightarrow> string" where
  "postgres_name member = ''postgres_'' @ ID member"

definition ipfs_name :: "Member \<Rightarrow> string" where
  "ipfs_name member = ''ipfs_'' @ ID member"

definition dataexchange_name :: "Member \<Rightarrow> string" where
  "dataexchange_name member = ''dataexchange_'' @ ID member"

text \<open>The six exposed ports of a member.\<close>

definition member_ports :: "Member \<Rightarrow> int list" where
  "member_ports m =
     [ExposedFireflyPort m, ExposedFireflyAdminPort m, ExposedPostgresPort m,
      ExposedIPFSApiPort m, ExposedIPFSGWPort m, ExposedDataexchangePort m]"

text \<open>
  Where the ports of \<open>member_ports\<close> are published: the name of the service and the
  position in its \<open>Ports\<close> of the port at each index.
\<close>

definition port_slot :: "Member \<Rightarrow> nat \<Rightarrow> string \<times> nat" where
  "port_slot m k =
     (if k = 0 then (core_name m, 0)
      else if k = 1 then (core_name m, 1)
      else if k = 2 then (postgres_name m, 0)
      else if k = 3 then (ipfs_name m, 0)
      else if k = 4 then (ipfs_name m, 1)
      else (dataexchange_name m, 0))"

text \<open>
  The hypothesis of the port claim in its words: the port of member \<open>i\<close> in each service
  family is the base port of the family plus \<open>i\<close>.
\<close>

definition derived_ports :: "int \<Rightarrow> int \<Rightarrow> int \<Rightarrow> int \<Rightarrow> int \<Rightarrow> int \<Rightarrow> Member list \<Rightarrow> bool" where
  "derived_ports core admin postgres api gw dx ms =
     (map ExposedFireflyPort ms = map (\<lambda>i. core + int i) [0..<length ms] \<and>
      map ExposedFireflyAdminPort ms = map (\<lambda>i. admin + int i) [0..<length ms] \<and>
      map ExposedPostgresPort ms = map (\<lambda>i. postgres + int i) [0..<length ms] \<and>
      map ExposedIPFSApiPort ms = map (\<lambda>i. api + int i) [0..<length ms] \<and>
      map ExposedIPFSGWPort ms = map (\<lambda>i. gw + int i) [0..<length ms] \<and>
      map ExposedDataexchangePort ms = map (\<lambda>i. dx + int i) [0..<length ms])"

text \<open>
  What one member leaves in the topology once its iteration is over: the core service with
  its dependencies (the amendment of line 117 applied when the database is postgres), and
  the services and volumes by name.
\<close>

definition final_core :: "Stack \<Rightarrow> Member \<Rightarrow> Service" where
  "final_core stack member =
     (if Database stack = ''postgres''
      then (core_service member)\<lparr> DependsOn :=
             Some [''dataexchange_'' @ ID member \<mapsto> [''condition'' \<mapsto> ''service_started''],
                   ''postgres_'' @ ID member \<mapsto> [''condition'' \<mapsto> ''service_healthy'']] \<rparr>
      else core_service member)"

definition emitted :: "Stack \<Rightarrow> Member \<Rightarrow> (string \<rightharpoonup> Service)" where
  "emitted stack member =
     (\<lambda>n. if n = ''firefly_core_'' @ ID member \<and> \<not> External member
            then Some (final_core stack member)
          else if n = ''postgres_'' @ ID member \<and> Database stack = ''postgres''
            then Some (postgres_service member)
          else if n = ''ipfs_'' @ ID member then Some (ipfs_service stack member)
          else if n = ''dataexchange_'' @ ID member then Some (dataexchange_service member)
          else None)"

definition emitted_volumes :: "Stack \<Rightarrow> Member \<Rightarrow> string set" where
  "emitted_volumes stack member =
     (if External member then {} else {''firefly_core_'' @ ID member}) \<union>
     (if Database stack = ''postgres'' then {''postgres_'' @ ID member} else {}) \<union>
     {''ipfs_staging_'' @ ID member, ''ipfs_data_'' @ ID member, ''dataexchange_'' @ ID member}"

text \<open>The loop invariant of line 78, over the set of the members already handled.\<close>

definition generated :: "Stack \<Rightarrow> Member set \<Rightarrow> DockerComposeConfig \<Rightarrow> bool" where
  "generated stack handled compose =
     ((\<forall>n s. Services compose n = Some s \<longrightarrow> (\<exists>m\<in>handled. emitted stack m n = Some s)) \<and>
      dom (Services compose) = (\<Union>m\<in>handled. dom (emitted stack m)) \<and>
      TopVolumes compose = (\<Union>m\<in>handled. emitted_volumes stack m))"

section \<open>Concrete stacks\<close>

text \<open>
  A member for the examples: its id, its core port, the ports of its services at fixed
  offsets from a base of its own, and whether it is external.
\<close>

definition mk_member :: "string \<Rightarrow> int \<Rightarrow> int \<Rightarrow> bool \<Rightarrow> Member" where
  "mk_member i core_port base ext =
     \<lparr> ID = i, ExposedFireflyPort = core_port, ExposedFireflyAdminPort = base + 1,
       ExposedPostgresPort = base + 4, ExposedIPFSApiPort = base + 6,
       ExposedIPFSGWPort = base + 7, ExposedDataexchangePort = base + 5, External = ext \<rparr>"

definition stack_external_postgres :: Stack where
  "stack_external_postgres =
     \<lparr> Members = [mk_member ''0'' 5000 5100 True, mk_member ''1'' 5001 5200 False],
       Database = ''postgres'', SwarmKey = ''key'' \<rparr>"

definition stack_two_postgres :: Stack where
  "stack_two_postgres =
     \<lparr> Members = [mk_member ''0'' 5000 5100 False, mk_member ''1'' 5001 5200 False],
       Database = ''postgres'', SwarmKey = ''key'' \<rparr>"

definition stack_mixed_sqlite :: Stack where
  "stack_mixed_sqlite =
     \<lparr> Members = [mk_member ''0'' 5000 5100 True, mk_member ''1'' 5001 5200 False],
       Database = ''sqlite3'', SwarmKey = ''key'' \<rparr>"

text \<open>
  Two members whose ports are the base port of each family plus the index of the member,
  with the bases 5000 (core), 5001 (admin), 5100, 5200, 5300 and 5400.
\<close>

definition colliding_member_0 :: Member where
  "colliding_member_0 =
     \<lparr> ID = ''0'', ExposedFireflyPort = 5000, ExposedFireflyAdminPort = 5001,
       ExposedPostgresPort = 5100, ExposedIPFSApiPort = 5200, ExposedIPFSGWPort = 5300,
       ExposedDataexchangePort = 5400, External = False \<rparr>"

definition colliding_member_1 :: Member where
  "colliding_member_1 =
     \<lparr> ID = ''1'', ExposedFireflyPort = 5001, ExposedFireflyAdminPort = 5002,
       ExposedPostgresPort = 5101, ExposedIPFSApiPort = 5201, ExposedIPFSGWPort = 5301,
       ExposedDataexchangePort = 5401, External = False \<rparr>"

definition stack_colliding :: Stack where
  "stack_colliding =
     \<lparr> Members = [colliding_member_0, colliding_member_1],
       Database = ''sqlite3'', SwarmKey = ''key'' \<rparr>"

section \<open>Concrete commands\<close>

text \<open>
  Example registries, collaborators and flags, for running the commands: the persisted
  storage is the set of the names of the stacks, and the example \<open>ResetStack\<close> empties it.
\<close>

definition example_registries :: Registries where
  "example_registries =
     \<lparr> DBSelectionStrings = [''postgres'', ''sqlite3''],
       BlockchainProviderStrings = [''geth'', ''fabric''],
       TokensProviderStrings = [''erc1155''] \<rparr>"

definition example_collaborators :: "(string set, Stack) Collaborators" where
  "example_collaborators =
     \<lparr> CheckExists = (\<lambda>w name. (name \<in> w, None)),
       prompt = (\<lambda>text validate. (''typed'', None)),
       InitStack = (\<lambda>name count opts w. (None, insert name w)),
       promptRun = (\<lambda>label. (''n'', None)),
       LoadStack = (\<lambda>w name. Inr \<lparr> Members = [], Database = ''sqlite3'', SwarmKey = '''' \<rparr>),
       ResetStack = (\<lambda>stack verbose w. {}) \<rparr>"

definition example_flags :: "string \<Rightarrow> string \<Rightarrow> string \<Rightarrow> int \<Rightarrow> bool \<Rightarrow> Flags" where
  "example_flags db bc tok ext f =
     \<lparr> databaseSelection = db, blockchainProviderSelection = bc, tokensProviderSelection = tok,
       initOptions = \<lparr> FireFlyBasePort = 5000, ServicesBasePort = 5100, ExternalProcesses = ext,
                       Verbose = False, DatabaseSelection = '''', TokensProvider = '''' \<rparr>,
       verbose = False, force = f \<rparr>"

section \<open>Totality of generation\<close>

text \<open>
  C1. The claim is that generation returns a topology for every accepted configuration, the
  database amendment always finding the core service it amends. For two members, the first
  of them external, and the postgres database (member count 2, one external process), the
  core service of the external member was never emitted, line 117 selects a field of the nil
  pointer, and the run panics instead of returning.
\<close>

theorem CreateDockerCompose_external_postgres_panics:
  "CreateDockerCompose stack_external_postgres = Inl NilPointerDereference"
  by (simp add: CreateDockerCompose_def stack_external_postgres_def mk_member_def member_step_def
      emit_core_def emit_postgres_def amend_core_def)

section \<open>Validation of the member count\<close>

text \<open>
  C3. \<open>validateCount\<close> fails with the invalid-number error on every input that
  \<open>strconv.Atoi\<close> rejects, with the non-positive error on every parsed value at most 0,
  with the too-many-external error on every parsed positive value that the number of
  external processes reaches or exceeds, and succeeds on every parsed positive value with
  the number of external processes one less. The checks are a cascade, as the spec lists
  them: a value at most 0 is reported as non-positive whatever the number of external
  processes.
\<close>

theorem validateCount_cases:
  "(\<forall>v err. Atoi a = (v, Some err) \<longrightarrow> validateCount e1 a = Some NotANumber) \<and>
   (\<forall>i. Atoi b = (i, None) \<and> i \<le> 0 \<longrightarrow> validateCount e2 b = Some NonPositiveCount) \<and>
   (\<forall>i. Atoi c = (i, None) \<and> 0 < i \<and> e3 \<ge> i \<longrightarrow> validateCount e3 c = Some TooManyExternal) \<and>
   (\<forall>i. Atoi d = (i, None) \<and> 0 < i \<and> e4 = i - 1 \<longrightarrow> validateCount e4 d = None)"
  by (simp add: validateCount_def)

lemma Atoi_abc: "Atoi ''abc'' = (0, Some ErrSyntax)"
  by (simp add: Atoi_def is_digit_def)

lemma Atoi_0: "Atoi ''0'' = (0, None)"
  by (simp add: Atoi_def is_digit_def digits_value_def)

lemma Atoi_3: "Atoi ''3'' = (3, None)"
  by (simp add: Atoi_def is_digit_def digits_value_def)

theorem validateCount_cases_witness:
  "Atoi ''abc'' = (0, Some ErrSyntax) \<and> validateCount 0 ''abc'' = Some NotANumber \<and>
   Atoi ''0'' = (0, None) \<and> validateCount 0 ''0'' = Some NonPositiveCount \<and>
   Atoi ''3'' = (3, None) \<and> validateCount 3 ''3'' = Some TooManyExternal \<and>
   validateCount 2 ''3'' = None"
  using validateCount_cases [of "''abc''" 0 "''0''" 0 "''3''" 3 "''3''" 2]
  by (simp add: Atoi_abc Atoi_0 Atoi_3)

section \<open>The blockchain provider policy\<close>

lemma allow_list_subset:
  "{t. validateBlockchainProvider regs t = None}
     \<subseteq> {t. \<exists>p. BlockchainProviderFromString regs t = Inr p}"
proof
  fix t assume "t \<in> {t. validateBlockchainProvider regs t = None}"
  then show "t \<in> {t. \<exists>p. BlockchainProviderFromString regs t = Inr p}"
    by (cases "BlockchainProviderFromString regs t") (simp_all add: validateBlockchainProvider_def)
qed

lemma allow_list_strict_iff:
  "{t. validateBlockchainProvider regs t = None}
     \<subset> {t. \<exists>p. BlockchainProviderFromString regs t = Inr p}
   \<longleftrightarrow> (\<exists>t\<in>set (BlockchainProviderStrings regs). t \<noteq> GoEthereum)"
proof
  assume "{t. validateBlockchainProvider regs t = None}
     \<subset> {t. \<exists>p. BlockchainProviderFromString regs t = Inr p}"
  then obtain t where t: "\<exists>p. BlockchainProviderFromString regs t = Inr p"
      "validateBlockchainProvider regs t \<noteq> None"
    by blast
  from t(1) have in_reg: "t \<in> set (BlockchainProviderStrings regs)"
    and parsed: "BlockchainProviderFromString regs t = Inr t"
    by (auto simp: BlockchainProviderFromString_def parse_def split: if_splits)
  from t(2) parsed have "t \<noteq> GoEthereum"
    by (simp add: validateBlockchainProvider_def split: if_splits)
  with in_reg show "\<exists>t\<in>set (BlockchainProviderStrings regs). t \<noteq> GoEthereum" by blast
next
  assume "\<exists>t\<in>set (BlockchainProviderStrings regs). t \<noteq> GoEthereum"
  then obtain other where other: "other \<in> set (BlockchainProviderStrings regs)" "other \<noteq> GoEthereum"
    by blast
  have in_parse: "BlockchainProviderFromString regs other = Inr other"
    using other(1) by (simp add: BlockchainProviderFromString_def parse_def)
  then have not_allowed: "other \<notin> {t. validateBlockchainProvider regs t = None}"
    using other(2) by (simp add: validateBlockchainProvider_def)
  have parsed: "other \<in> {t. \<exists>p. BlockchainProviderFromString regs t = Inr p}"
    using in_parse by simp
  have neq: "{t. validateBlockchainProvider regs t = None}
            \<noteq> {t. \<exists>p. BlockchainProviderFromString regs t = Inr p}"
  proof
    assume eq: "{t. validateBlockchainProvider regs t = None}
            = {t. \<exists>p. BlockchainProviderFromString regs t = Inr p}"
    from parsed have "other \<in> {t. validateBlockchainProvider regs t = None}"
      unfolding eq .
    with not_allowed show False by (rule notE)
  qed
  show "{t. validateBlockchainProvider regs t = None}
            \<subset> {t. \<exists>p. BlockchainProviderFromString regs t = Inr p}"
    using allow_list_subset neq by (rule psubsetI)
qed

lemma modelled_registry_further:
  "\<exists>t\<in>set (BlockchainProviderStrings modelled_registries). t \<noteq> GoEthereum"
  by (simp add: modelled_registries_def further_provider_def GoEthereum_def)

text \<open>
  C9. For every registry, \<open>validateBlockchainProvider\<close> fails with the
  unsupported-provider error on every token that the registry parses to a provider other
  than \<open>GoEthereum\<close>, and succeeds exactly on the tokens that the registry parses to
  \<open>GoEthereum\<close>; the tokens that pass are a proper subset of the tokens that parse
  exactly when the registry holds a token other than that of \<open>GoEthereum\<close>. For the
  registry modelled from the spec, the tokens that pass are the token of \<open>GoEthereum\<close>
  alone, the tokens that parse are this token and the further one, and the first set is a
  proper subset of the second.
\<close>

theorem validateBlockchainProvider_allow_list:
  "(\<forall>t p. BlockchainProviderFromString regs t = Inr p \<and> p \<noteq> GoEthereum
        \<longrightarrow> validateBlockchainProvider regs t = Some UnsupportedProvider) \<and>
   (\<forall>t. validateBlockchainProvider regs t = None
        \<longleftrightarrow> BlockchainProviderFromString regs t = Inr GoEthereum) \<and>
   (({t. validateBlockchainProvider regs t = None}
        \<subset> {t. \<exists>p. BlockchainProviderFromString regs t = Inr p})
      = (\<exists>t\<in>set (BlockchainProviderStrings regs). t \<noteq> GoEthereum)) \<and>
   {t. validateBlockchainProvider modelled_registries t = None}
      = {GoEthereum} \<and>
   {t. \<exists>p. BlockchainProviderFromString modelled_registries t = Inr p}
      = {GoEthereum, further_provider} \<and>
   further_provider \<noteq> GoEthereum \<and>
   {t. validateBlockchainProvider modelled_registries t = None}
      \<subset> {t. \<exists>p. BlockchainProviderFromString modelled_registries t = Inr p}"
proof (intro conjI)
  show "\<forall>t p. BlockchainProviderFromString regs t = Inr p \<and> p \<noteq> GoEthereum
            \<longrightarrow> validateBlockchainProvider regs t = Some UnsupportedProvider"
    by (simp add: validateBlockchainProvider_def)
  show "\<forall>t. validateBlockchainProvider regs t = None
            \<longleftrightarrow> BlockchainProviderFromString regs t = Inr GoEthereum"
    by (auto simp: validateBlockchainProvider_def split: sum.splits)
  show "({t. validateBlockchainProvider regs t = None}
        \<subset> {t. \<exists>p. BlockchainProviderFromString regs t = Inr p})
      = (\<exists>t\<in>set (BlockchainProviderStrings regs). t \<noteq> GoEthereum)"
    by (rule allow_list_strict_iff)
  show "{t. validateBlockchainProvider modelled_registries t = None} = {GoEthereum}"
    by (auto simp: validateBlockchainProvider_def BlockchainProviderFromString_def parse_def
        modelled_registries_def split: if_splits)
  show "{t. \<exists>p. BlockchainProviderFromString modelled_registries t = Inr p}
      = {GoEthereum, further_provider}"
    by (auto simp: BlockchainProviderFromString_def parse_def modelled_registries_def
        split: if_splits)
  show "further_provider \<noteq> GoEthereum"
    by (simp add: further_provider_def GoEthereum_def)
  show "{t. validateBlockchainProvider modelled_registries t = None}
      \<subset> {t. \<exists>p. BlockchainProviderFromString modelled_registries t = Inr p}"
    using allow_list_strict_iff [of modelled_registries] modelled_registry_further
    by (rule_tac iffD2)
qed


theorem validateBlockchainProvider_allow_list_witness:
  "BlockchainProviderFromString modelled_registries further_provider = Inr further_provider \<and>
   further_provider \<noteq> GoEthereum \<and>
   validateBlockchainProvider modelled_registries further_provider = Some UnsupportedProvider \<and>
   validateBlockchainProvider modelled_registries GoEthereum = None \<and>
   {t. validateBlockchainProvider modelled_registries t = None}
      \<subset> {t. \<exists>p. BlockchainProviderFromString modelled_registries t = Inr p}"
proof -
  note main = validateBlockchainProvider_allow_list [of modelled_registries]
  have p: "BlockchainProviderFromString modelled_registries further_provider = Inr further_provider"
    by (simp add: BlockchainProviderFromString_def parse_def modelled_registries_def)
  have g: "BlockchainProviderFromString modelled_registries GoEthereum = Inr GoEthereum"
    by (simp add: BlockchainProviderFromString_def parse_def modelled_registries_def)
  note c1 = main [THEN conjunct1]
  note c2 = main [THEN conjunct2, THEN conjunct1]
  note c6 = main [THEN conjunct2, THEN conjunct2, THEN conjunct2, THEN conjunct2, THEN conjunct2,
                  THEN conjunct1]
  note c7 = main [THEN conjunct2, THEN conjunct2, THEN conjunct2, THEN conjunct2, THEN conjunct2,
                  THEN conjunct2]
  have h: "further_provider \<noteq> GoEthereum" by (rule c6)
  have u: "validateBlockchainProvider modelled_registries further_provider
             = Some UnsupportedProvider"
    by (rule c1 [rule_format, OF conjI [OF p h]])
  have a: "validateBlockchainProvider modelled_registries GoEthereum = None"
    by (rule c2 [THEN spec, THEN iffD2, OF g])
  have s: "{t. validateBlockchainProvider modelled_registries t = None}
      \<subset> {t. \<exists>p. BlockchainProviderFromString modelled_registries t = Inr p}"
    by (rule c7)
  show ?thesis using p h u a s by (intro conjI)
qed

section \<open>The order of the checks of init\<close>

lemma example_db_unknown:
  "validateDatabaseProvider example_registries ''oracle''
     = Some (UnknownProvider ''database'' ''oracle'' [''postgres'', ''sqlite3''])"
  by (simp add: validateDatabaseProvider_def DatabaseSelectionFromString_def parse_def
      example_registries_def)

lemma example_db_ok: "validateDatabaseProvider example_registries ''postgres'' = None"
  by (simp add: validateDatabaseProvider_def DatabaseSelectionFromString_def parse_def
      example_registries_def)

lemma example_bc_unsupported:
  "validateBlockchainProvider example_registries ''fabric'' = Some UnsupportedProvider"
  by (simp add: validateBlockchainProvider_def BlockchainProviderFromString_def parse_def
      example_registries_def GoEthereum_def)

lemma example_bc_ok: "validateBlockchainProvider example_registries ''geth'' = None"
  by (simp add: validateBlockchainProvider_def BlockchainProviderFromString_def parse_def
      example_registries_def GoEthereum_def)

lemma example_tok_unknown:
  "validateTokensProvider example_registries ''erc20''
     = Some (UnknownProvider ''tokens provider'' ''erc20'' [''erc1155''])"
  by (simp add: validateTokensProvider_def TokensProviderFromString_def parse_def
      example_registries_def)

lemma example_tok_ok: "validateTokensProvider example_registries ''erc1155'' = None"
  by (simp add: validateTokensProvider_def TokensProviderFromString_def parse_def
      example_registries_def)

lemma example_name_empty: "validateName example_collaborators {} '''' = Some EmptyName"
  by (simp add: validateName_def TrimSpace_def strip_leading.simps space_encodings_def)

lemma example_name_ok: "validateName example_collaborators {} ''stack1'' = None"
  by (simp add: validateName_def TrimSpace_def strip_leading.simps space_encodings_def
      example_collaborators_def)

lemma example_count_zero: "validateCount 0 ''0'' = Some NonPositiveCount"
  by (simp add: validateCount_def Atoi_def is_digit_def digits_value_def)

text \<open>
  C4, as stated, fails: the claim has the name checked first, the count second and the
  providers last. With an empty name, the count 0 and an unknown database token, all three
  rules are violated, and \<open>initCmd\<close> reports the unknown database provider, not the empty
  name.
\<close>

theorem initCmd_name_first_counterexample:
  "validateName example_collaborators {} '''' = Some EmptyName \<and>
   validateCount 0 ''0'' = Some NonPositiveCount \<and>
   validateDatabaseProvider example_registries ''oracle''
     = Some (UnknownProvider ''database'' ''oracle'' [''postgres'', ''sqlite3'']) \<and>
   initCmd example_collaborators example_registries
       (example_flags ''oracle'' ''geth'' ''erc1155'' 0 False) ['''', ''0''] {}
     = (Some (UnknownProvider ''database'' ''oracle'' [''postgres'', ''sqlite3'']), {})"
  by (simp add: example_name_empty example_count_zero example_db_unknown initCmd_def
      example_flags_def)

text \<open>
  C4, amended. \<open>initCmd\<close> checks the database provider first, then the blockchain
  provider (unknown, then unsupported), then the tokens provider, then the name and then
  the count, each of the last two when it is given as an argument; the failure reported is
  that of the earliest check in this order that fails, and the storage is left as it was.
  Within the name check, a name that is empty once its white space is trimmed (the Unicode
  white space included) is reported before the existence of the stack is looked up, and a
  name that is not is reported as a conflict when the stack exists.
\<close>

theorem initCmd_validation_order:
  "(\<forall>e. length a1 \<le> 2 \<and> validateDatabaseProvider regs (databaseSelection f1) = Some e
        \<longrightarrow> initCmd c regs f1 a1 w1 = (Some e, w1)) \<and>
   (\<forall>e. length a2 \<le> 2 \<and> validateDatabaseProvider regs (databaseSelection f2) = None \<and>
        validateBlockchainProvider regs (blockchainProviderSelection f2) = Some e
        \<longrightarrow> initCmd c regs f2 a2 w2 = (Some e, w2)) \<and>
   (\<forall>e. length a3 \<le> 2 \<and> validateDatabaseProvider regs (databaseSelection f3) = None \<and>
        validateBlockchainProvider regs (blockchainProviderSelection f3) = None \<and>
        validateTokensProvider regs (tokensProviderSelection f3) = Some e
        \<longrightarrow> initCmd c regs f3 a3 w3 = (Some e, w3)) \<and>
   (\<forall>e. 0 < length a4 \<and> length a4 \<le> 2 \<and>
        validateDatabaseProvider regs (databaseSelection f4) = None \<and>
        validateBlockchainProvider regs (blockchainProviderSelection f4) = None \<and>
        validateTokensProvider regs (tokensProviderSelection f4) = None \<and>
        validateName c w4 (a4 ! 0) = Some e
        \<longrightarrow> initCmd c regs f4 a4 w4 = (Some e, w4)) \<and>
   (\<forall>e. length a5 = 2 \<and>
        validateDatabaseProvider regs (databaseSelection f5) = None \<and>
        validateBlockchainProvider regs (blockchainProviderSelection f5) = None \<and>
        validateTokensProvider regs (tokensProviderSelection f5) = None \<and>
        validateName c w5 (a5 ! 0) = None \<and>
        validateCount (ExternalProcesses (initOptions f5)) (a5 ! 1) = Some e
        \<longrightarrow> initCmd c regs f5 a5 w5 = (Some e, w5)) \<and>
   (TrimSpace n6 = '''' \<longrightarrow> validateName c w6 n6 = Some EmptyName) \<and>
   (TrimSpace n7 \<noteq> '''' \<and> fst (CheckExists c w7 n7)
        \<longrightarrow> validateName c w7 n7 = Some (NameConflict n7))"
  by (simp add: initCmd_def read_name_def read_count_def validateName_def split: prod.splits)

lemma example_name_no_break_space:
  "validateName example_collaborators {} [CHR 0xC2, CHR 0xA0] = Some EmptyName"
  by (simp add: validateName_def TrimSpace_def strip_leading.simps space_encodings_def)

lemma example_name_conflict:
  "TrimSpace ''stack1'' \<noteq> '''' \<and> fst (CheckExists example_collaborators {''stack1''} ''stack1'')"
  by (simp add: TrimSpace_def strip_leading.simps space_encodings_def example_collaborators_def)

theorem initCmd_validation_order_witness:
  "initCmd example_collaborators example_registries
       (example_flags ''oracle'' ''fabric'' ''erc20'' 0 False) ['''', ''0''] {}
     = (Some (UnknownProvider ''database'' ''oracle'' [''postgres'', ''sqlite3'']), {}) \<and>
   initCmd example_collaborators example_registries
       (example_flags ''postgres'' ''fabric'' ''erc20'' 0 False) ['''', ''0''] {}
     = (Some UnsupportedProvider, {}) \<and>
   initCmd example_collaborators example_registries
       (example_flags ''postgres'' ''geth'' ''erc20'' 0 False) ['''', ''0''] {}
     = (Some (UnknownProvider ''tokens provider'' ''erc20'' [''erc1155'']), {}) \<and>
   initCmd example_collaborators example_registries
       (example_flags ''postgres'' ''geth'' ''erc1155'' 0 False) [[CHR 0xC2, CHR 0xA0], ''0''] {}
     = (Some EmptyName, {}) \<and>
   initCmd example_collaborators example_registries
       (example_flags ''postgres'' ''geth'' ''erc1155'' 0 False) [''stack1'', ''0''] {}
     = (Some NonPositiveCount, {}) \<and>
   validateName example_collaborators {} '''' = Some EmptyName \<and>
   validateName example_collaborators {''stack1''} ''stack1'' = Some (NameConflict ''stack1'')"
  using initCmd_validation_order
    [of "['''', ''0'']" example_registries "example_flags ''oracle'' ''fabric'' ''erc20'' 0 False"
        example_collaborators "{}"
        "['''', ''0'']" "example_flags ''postgres'' ''fabric'' ''erc20'' 0 False" "{}"
        "['''', ''0'']" "example_flags ''postgres'' ''geth'' ''erc20'' 0 False" "{}"
        "[[CHR 0xC2, CHR 0xA0], ''0'']" "example_flags ''postgres'' ''geth'' ''erc1155'' 0 False" "{}"
        "[''stack1'', ''0'']" "example_flags ''postgres'' ''geth'' ''erc1155'' 0 False" "{}"
        "''''" "{}" "''stack1''" "{''stack1''}"]
    example_name_conflict
  by (simp add: example_flags_def example_db_unknown example_db_ok example_bc_unsupported
      example_bc_ok example_tok_unknown example_tok_ok example_name_empty example_name_ok
      example_name_no_break_space example_count_zero)

section \<open>Declining a reset\<close>

text \<open>
  C8. For a stack that exists, without the force flag, and a confirmation that returns an
  error or anything but \<open>y\<close> or \<open>Y\<close>, \<open>resetCmd\<close> returns no error and leaves the
  storage as it was, whatever \<open>ResetStack\<close> would do to it: the stack is neither loaded nor
  reset.
\<close>

theorem resetCmd_declined:
  assumes "CheckExists c w name = (True, None)" and "\<not> force fl"
    and "promptRun c (''reset all data in FireFly stack '' @ [CHR 0x27] @ name @ [CHR 0x27]) = (result, err)"
    and "err \<noteq> None \<or> ToLower result \<noteq> ''y''"
  shows "resetCmd c fl (name # rest) w = (None, w)"
  using assms by (simp add: resetCmd_def)

theorem resetCmd_declined_witness:
  "CheckExists example_collaborators {''stack1''} ''stack1'' = (True, None) \<and>
   ToLower ''n'' \<noteq> ''y'' \<and>
   resetCmd example_collaborators (example_flags ''postgres'' ''geth'' ''erc1155'' 0 False)
       [''stack1''] {''stack1''} = (None, {''stack1''})"
proof -
  have h1: "CheckExists example_collaborators {''stack1''} ''stack1'' = (True, None)"
    by (simp add: example_collaborators_def)
  have h2: "\<not> force (example_flags ''postgres'' ''geth'' ''erc1155'' 0 False)"
    by (simp add: example_flags_def)
  have h3: "promptRun example_collaborators
              (''reset all data in FireFly stack '' @ [CHR 0x27] @ ''stack1'' @ [CHR 0x27])
            = (''n'', None)"
    by (simp add: example_collaborators_def)
  have h4: "ToLower ''n'' \<noteq> ''y''"
    by (simp add: ToLower_def to_lower_def)
  then have h5: "(None :: error option) \<noteq> None \<or> ToLower ''n'' \<noteq> ''y''"
    by simp
  from resetCmd_declined [OF h1 h2 h3 h5, of "[]"] h1 h4 show ?thesis
    by simp
qed

section \<open>The loop invariant of the generator\<close>

lemma name_inj [simp]:
  "core_name m = core_name m' \<longleftrightarrow> ID m = ID m'"
  "postgres_name m = postgres_name m' \<longleftrightarrow> ID m = ID m'"
  "ipfs_name m = ipfs_name m' \<longleftrightarrow> ID m = ID m'"
  "dataexchange_name m = dataexchange_name m' \<longleftrightarrow> ID m = ID m'"
  by (simp_all add: core_name_def postgres_name_def ipfs_name_def dataexchange_name_def)

lemma name_distinct [simp]:
  "core_name m \<noteq> postgres_name m'" "core_name m \<noteq> ipfs_name m'"
  "core_name m \<noteq> dataexchange_name m'"
  "postgres_name m \<noteq> core_name m'" "postgres_name m \<noteq> ipfs_name m'"
  "postgres_name m \<noteq> dataexchange_name m'"
  "ipfs_name m \<noteq> core_name m'" "ipfs_name m \<noteq> postgres_name m'"
  "ipfs_name m \<noteq> dataexchange_name m'"
  "dataexchange_name m \<noteq> core_name m'" "dataexchange_name m \<noteq> postgres_name m'"
  "dataexchange_name m \<noteq> ipfs_name m'"
  by (simp_all add: core_name_def postgres_name_def ipfs_name_def dataexchange_name_def)

lemma emit_core_names:
  "emit_core m c =
     (if \<not> External m
      then c\<lparr> Services := (Services c)(core_name m \<mapsto> core_service m),
              TopVolumes := insert (core_name m) (TopVolumes c) \<rparr>
      else c)"
  by (simp add: emit_core_def core_name_def)

lemma DependsOn_core_service:
  "DependsOn (core_service m) = Some [dataexchange_name m \<mapsto> [''condition'' \<mapsto> ''service_started'']]"
  by (simp add: core_service_def dataexchange_name_def)

lemma amend_core_names:
  "amend_core m c =
     (case Services c (core_name m) of
        None \<Rightarrow> Inl NilPointerDereference
      | Some core \<Rightarrow>
          (case DependsOn core of
             None \<Rightarrow> Inl AssignToNilMap
           | Some deps \<Rightarrow>
               Inr (c\<lparr> Services := (Services c)(core_name m \<mapsto>
                      core\<lparr> DependsOn := Some (deps(postgres_name m \<mapsto>
                                               [''condition'' \<mapsto> ''service_healthy''])) \<rparr>) \<rparr>)))"
  by (simp only: amend_core_def core_name_def postgres_name_def)

lemma emit_postgres_names:
  "emit_postgres stack m c =
     (if Database stack = ''postgres''
      then amend_core m
             (c\<lparr> Services := (Services c)(postgres_name m \<mapsto> postgres_service m),
                 TopVolumes := insert (postgres_name m) (TopVolumes c) \<rparr>)
      else Inr c)"
  by (simp add: emit_postgres_def postgres_name_def)

lemma emit_ipfs_names:
  "emit_ipfs stack m c =
     c\<lparr> Services := (Services c)(ipfs_name m \<mapsto> ipfs_service stack m),
        TopVolumes := insert (''ipfs_data_'' @ ID m) (insert (''ipfs_staging_'' @ ID m) (TopVolumes c)) \<rparr>"
  by (simp add: emit_ipfs_def ipfs_name_def)

lemma emit_dataexchange_names:
  "emit_dataexchange m c =
     c\<lparr> Services := (Services c)(dataexchange_name m \<mapsto> dataexchange_service m),
        TopVolumes := insert (dataexchange_name m) (TopVolumes c) \<rparr>"
  by (simp add: emit_dataexchange_def dataexchange_name_def)

lemma final_core_names:
  "final_core stack m =
     (if Database stack = ''postgres''
      then (core_service m)\<lparr> DependsOn :=
             Some [dataexchange_name m \<mapsto> [''condition'' \<mapsto> ''service_started''],
                   postgres_name m \<mapsto> [''condition'' \<mapsto> ''service_healthy'']] \<rparr>
      else core_service m)"
  by (simp add: final_core_def dataexchange_name_def postgres_name_def)

lemma emitted_names:
  "emitted stack m n =
     (if n = core_name m \<and> \<not> External m then Some (final_core stack m)
      else if n = postgres_name m \<and> Database stack = ''postgres'' then Some (postgres_service m)
      else if n = ipfs_name m then Some (ipfs_service stack m)
      else if n = dataexchange_name m then Some (dataexchange_service m)
      else None)"
  by (simp add: emitted_def core_name_def postgres_name_def ipfs_name_def dataexchange_name_def)

lemma emitted_volumes_names:
  "emitted_volumes stack m =
     (if External m then {} else {core_name m}) \<union>
     (if Database stack = ''postgres'' then {postgres_name m} else {}) \<union>
     {''ipfs_staging_'' @ ID m, ''ipfs_data_'' @ ID m, dataexchange_name m}"
  by (simp add: emitted_volumes_def core_name_def postgres_name_def dataexchange_name_def)

lemmas step_names = member_step_def emit_core_names emit_postgres_names amend_core_names
  emit_ipfs_names emit_dataexchange_names

lemma step_ext_nopg:
  assumes "External m" "Database stack \<noteq> ''postgres''" "member_step stack m c = Inr c'"
  shows "Services c' = Services c ++ emitted stack m"
    and "TopVolumes c' = TopVolumes c \<union> emitted_volumes stack m"
  using assms
  by (auto simp: step_names emitted_names emitted_volumes_names fun_eq_iff map_add_def)

lemma step_nonext_nopg:
  assumes "\<not> External m" "Database stack \<noteq> ''postgres''" "member_step stack m c = Inr c'"
  shows "Services c' = Services c ++ emitted stack m"
    and "TopVolumes c' = TopVolumes c \<union> emitted_volumes stack m"
  using assms
  by (auto simp: step_names emitted_names emitted_volumes_names final_core_names fun_eq_iff map_add_def)

lemma step_nonext_pg:
  assumes "\<not> External m" "Database stack = ''postgres''" "member_step stack m c = Inr c'"
  shows "Services c' = Services c ++ emitted stack m"
    and "TopVolumes c' = TopVolumes c \<union> emitted_volumes stack m"
  using assms
  by (auto simp: step_names emitted_names emitted_volumes_names final_core_names
      DependsOn_core_service fun_eq_iff map_add_def)

lemma generated_core:
  assumes "generated stack M c" "Services c (core_name m) = Some s"
  shows "\<exists>m0\<in>M. ID m0 = ID m \<and> \<not> External m0 \<and> s = final_core stack m0"
proof -
  from assms obtain m0 where m0: "m0 \<in> M" "emitted stack m0 (core_name m) = Some s"
    unfolding generated_def by blast
  from m0(2) have "ID m0 = ID m \<and> \<not> External m0 \<and> s = final_core stack m0"
    by (simp add: emitted_names split: if_splits)
  with m0(1) show ?thesis by blast
qed

lemma step_ext_pg:
  assumes "External m" "Database stack = ''postgres''" "member_step stack m c = Inr c'"
    and "generated stack M c"
  shows "Services c' = Services c ++ emitted stack m"
    and "TopVolumes c' = TopVolumes c \<union> emitted_volumes stack m"
proof -
  from assms(1-3) obtain s where s: "Services c (core_name m) = Some s"
    by (auto simp: step_names split: option.splits)
  from generated_core [OF assms(4) s] obtain m0
    where m0: "ID m0 = ID m" "s = final_core stack m0" by blast
  have deps: "DependsOn s =
      Some [dataexchange_name m \<mapsto> [''condition'' \<mapsto> ''service_started''],
            postgres_name m \<mapsto> [''condition'' \<mapsto> ''service_healthy'']]"
    using m0 assms(2) by (simp add: final_core_names dataexchange_name_def postgres_name_def)
  have same: "s\<lparr> DependsOn := Some ([dataexchange_name m \<mapsto> [''condition'' \<mapsto> ''service_started''],
            postgres_name m \<mapsto> [''condition'' \<mapsto> ''service_healthy'']]
              (postgres_name m \<mapsto> [''condition'' \<mapsto> ''service_healthy''])) \<rparr> = s"
    using deps by simp
  show "Services c' = Services c ++ emitted stack m"
    using assms(1-3) s deps same
    by (auto simp: step_names emitted_names fun_eq_iff map_add_def)
  show "TopVolumes c' = TopVolumes c \<union> emitted_volumes stack m"
    using assms(1-3) s deps
    by (auto simp: step_names emitted_volumes_names)
qed

lemma member_step_effect:
  assumes "generated stack M c" "member_step stack m c = Inr c'"
  shows "Services c' = Services c ++ emitted stack m"
    and "TopVolumes c' = TopVolumes c \<union> emitted_volumes stack m"
proof -
  consider (en) "External m" "Database stack \<noteq> ''postgres''"
    | (nn) "\<not> External m" "Database stack \<noteq> ''postgres''"
    | (np) "\<not> External m" "Database stack = ''postgres''"
    | (ep) "External m" "Database stack = ''postgres''"
    by blast
  then have "Services c' = Services c ++ emitted stack m \<and>
             TopVolumes c' = TopVolumes c \<union> emitted_volumes stack m"
  proof cases
    case en
    from step_ext_nopg [OF en assms(2)] show ?thesis by (rule conjI)
  next
    case nn
    from step_nonext_nopg [OF nn assms(2)] show ?thesis by (rule conjI)
  next
    case np
    from step_nonext_pg [OF np assms(2)] show ?thesis by (rule conjI)
  next
    case ep
    from step_ext_pg [OF ep assms(2) assms(1)] show ?thesis by (rule conjI)
  qed
  then show "Services c' = Services c ++ emitted stack m"
    and "TopVolumes c' = TopVolumes c \<union> emitted_volumes stack m"
    by (rule conjunct1, rule conjunct2)
qed

lemma member_step_generated:
  assumes "generated stack M c" "member_step stack m c = Inr c'"
  shows "generated stack (insert m M) c'"
proof -
  note eff = member_step_effect [OF assms]
  have a: "\<forall>n s. Services c' n = Some s \<longrightarrow> (\<exists>m'\<in>insert m M. emitted stack m' n = Some s)"
  proof (intro allI impI)
    fix n s assume "Services c' n = Some s"
    then have "emitted stack m n = Some s \<or> Services c n = Some s"
      unfolding eff(1) by (auto simp: map_add_Some_iff)
    then show "\<exists>m'\<in>insert m M. emitted stack m' n = Some s"
      using assms(1) unfolding generated_def by blast
  qed
  have b: "dom (Services c') = (\<Union>m'\<in>insert m M. dom (emitted stack m'))"
    using assms(1) unfolding eff(1) generated_def by auto
  have v: "TopVolumes c' = (\<Union>m'\<in>insert m M. emitted_volumes stack m')"
    using assms(1) unfolding eff(2) generated_def by auto
  show ?thesis unfolding generated_def using a b v by blast
qed

lemma members_loop_generated:
  "generated stack M c \<Longrightarrow> members_loop stack ms c = Inr c' \<Longrightarrow> generated stack (M \<union> set ms) c'"
proof (induction ms arbitrary: M c)
  case Nil
  then show ?case by simp
next
  case (Cons m ms)
  from Cons.prems(2) obtain c1 where c1: "member_step stack m c = Inr c1"
    and rest: "members_loop stack ms c1 = Inr c'"
    by (auto split: sum.splits)
  from member_step_generated [OF Cons.prems(1) c1]
  have "generated stack (insert m M) c1" .
  from Cons.IH [OF this rest] show ?case by simp
qed

lemma CreateDockerCompose_generated:
  assumes "CreateDockerCompose stack = Inr c"
  shows "generated stack (set (Members stack)) c"
proof -
  have "generated stack {} \<lparr> Version = ''2.1'', Services = Map.empty, TopVolumes = {} \<rparr>"
    by (simp add: generated_def)
  from members_loop_generated [OF this] assms show ?thesis
    by (simp add: CreateDockerCompose_def)
qed

section \<open>Decimal formatting and the reading functions\<close>

lemma of_char_digit_char: "d < 10 \<Longrightarrow> (of_char (digit_char d) :: nat) = 48 + d"
  by (simp add: digit_char_def)

lemma digits_value_snoc:
  "digits_value (s @ [c]) = 10 * digits_value s + ((of_char c :: nat) - 48)"
  by (simp add: digits_value_def)

lemma digits_value_digits: "digits_value (digits n) = n"
proof (induction n rule: digits.induct)
  case (1 n)
  show ?case
  proof (cases "n < 10")
    case True
    then show ?thesis
      by (subst digits.simps) (simp add: digits_value_def of_char_digit_char)
  next
    case False
    with 1 have "digits_value (digits (n div 10)) = n div 10" by simp
    with False show ?thesis
      by (subst digits.simps) (simp add: digits_value_snoc of_char_digit_char)
  qed
qed

lemma digits_all_digit: "list_all is_digit (digits n)"
proof (induction n rule: digits.induct)
  case (1 n)
  show ?case
  proof (cases "n < 10")
    case True
    then show ?thesis
      by (subst digits.simps) (simp add: is_digit_def of_char_digit_char)
  next
    case False
    with 1 have "list_all is_digit (digits (n div 10))" by simp
    with False show ?thesis
      by (subst digits.simps) (simp add: is_digit_def of_char_digit_char)
  qed
qed

lemma digits_not_Nil: "digits n \<noteq> []"
  by (subst digits.simps) simp

lemma is_digit_not_colon: "is_digit c \<Longrightarrow> c \<noteq> CHR '':''"
  by (auto simp: is_digit_def)

lemma is_digit_not_minus: "is_digit c \<Longrightarrow> c \<noteq> CHR ''-''"
  by (auto simp: is_digit_def)

lemma colon_notin_digits: "CHR '':'' \<notin> set (digits n)"
  using digits_all_digit [of n] is_digit_not_colon by (auto simp: list_all_iff)

lemma colon_notin_fmt_d: "CHR '':'' \<notin> set (fmt_d i)"
  by (simp add: fmt_d_def colon_notin_digits)

lemma hd_digits_not_minus: "hd (digits n) \<noteq> CHR ''-''"
  using digits_all_digit [of n] digits_not_Nil [of n] is_digit_not_minus
  by (cases "digits n") auto

lemma digits_inj: "digits a = digits b \<Longrightarrow> a = b"
  using digits_value_digits by metis

lemma fmt_d_inj: "fmt_d i = fmt_d j \<Longrightarrow> i = j"
proof -
  assume eq: "fmt_d i = fmt_d j"
  consider (nn) "i < 0" "j < 0" | (np) "i < 0" "\<not> j < 0" | (pn) "\<not> i < 0" "j < 0"
    | (pp) "\<not> i < 0" "\<not> j < 0" by blast
  then show "i = j"
  proof cases
    case nn
    with eq have "digits (nat (- i)) = digits (nat (- j))" by (simp add: fmt_d_def)
    from digits_inj [OF this] nn show ?thesis by simp
  next
    case np
    with eq have "CHR ''-'' # digits (nat (- i)) = digits (nat j)" by (simp add: fmt_d_def)
    then have "hd (digits (nat j)) = CHR ''-''" by (metis list.sel(1))
    with hd_digits_not_minus show ?thesis by blast
  next
    case pn
    with eq have "digits (nat i) = CHR ''-'' # digits (nat (- j))" by (simp add: fmt_d_def)
    then have "hd (digits (nat i)) = CHR ''-''" by (metis list.sel(1))
    with hd_digits_not_minus show ?thesis by blast
  next
    case pp
    with eq have "digits (nat i) = digits (nat j)" by (simp add: fmt_d_def)
    from digits_inj [OF this] pp show ?thesis by simp
  qed
qed

lemma host_port_fmt_d [simp]: "host_port (fmt_d h @ CHR '':'' # rest) = fmt_d h"
  by (simp add: host_port_def takeWhile_append colon_notin_fmt_d)
  
lemma dropWhile_upto: "c \<notin> set xs \<Longrightarrow> dropWhile (\<lambda>x. x \<noteq> c) (xs @ c # ys) = c # ys"
  by (induction xs) auto

lemma volume_name_mount: "CHR '':'' \<notin> set path \<Longrightarrow> volume_name (v @ CHR '':'' # path) = v"
proof -
  assume "CHR '':'' \<notin> set path"
  then have "dropWhile (\<lambda>c. c \<noteq> CHR '':'') (rev path @ CHR '':'' # rev v) = CHR '':'' # rev v"
    using dropWhile_upto [of "CHR '':''" "rev path" "rev v"] by simp
  then show ?thesis by (simp add: volume_name_def)
qed

lemma distinct_concat_nth:
  "distinct (concat xss) \<Longrightarrow> a < length xss \<Longrightarrow> b < length xss \<Longrightarrow>
   x \<in> set (xss ! a) \<Longrightarrow> x \<in> set (xss ! b) \<Longrightarrow> a = b"
proof (induction xss arbitrary: a b)
  case Nil
  then show ?case by simp
next
  case (Cons xs xss)
  show ?case
  proof (cases a)
    case a0: 0
    show ?thesis
    proof (cases b)
      case 0
      with a0 show ?thesis by simp
    next
      case (Suc b')
      with Cons.prems a0 have "x \<in> set xs" "x \<in> set (xss ! b')" "b' < length xss" by simp_all
      then have "x \<in> set xs \<inter> \<Union> (set ` set xss)" by (auto intro: nth_mem)
      with Cons.prems(1) show ?thesis by auto
    qed
  next
    case sa: (Suc a')
    show ?thesis
    proof (cases b)
      case 0
      with Cons.prems sa have "x \<in> set xs" "x \<in> set (xss ! a')" "a' < length xss" by simp_all
      then have "x \<in> set xs \<inter> \<Union> (set ` set xss)" by (auto intro: nth_mem)
      with Cons.prems(1) show ?thesis by auto
    next
      case (Suc b')
      with Cons.prems sa have "a' = b'"
        by (intro Cons.IH) simp_all
      with sa Suc show ?thesis by simp
    qed
  qed
qed

section \<open>When generation returns\<close>

lemma member_step_returns:
  assumes "\<not> External m \<or> Database stack \<noteq> ''postgres''"
  shows "\<exists>c'. member_step stack m c = Inr c'"
  using assms by (auto simp: step_names DependsOn_core_service)

lemma members_loop_returns:
  assumes "(\<forall>m\<in>set ms. \<not> External m) \<or> Database stack \<noteq> ''postgres''"
  shows "\<exists>c'. members_loop stack ms c = Inr c'"
  using assms
proof (induction ms arbitrary: c)
  case Nil
  then show ?case by simp
next
  case (Cons m ms)
  then have "\<not> External m \<or> Database stack \<noteq> ''postgres''" by auto
  from member_step_returns [OF this] obtain c1 where c1: "member_step stack m c = Inr c1"
    by blast
  from Cons have "(\<forall>m\<in>set ms. \<not> External m) \<or> Database stack \<noteq> ''postgres''" by auto
  from Cons.IH [OF this] obtain c' where "members_loop stack ms c1 = Inr c'" by blast
  with c1 show ?case by simp
qed

lemma CreateDockerCompose_returns:
  assumes "(\<forall>m\<in>set (Members stack). \<not> External m) \<or> Database stack \<noteq> ''postgres''"
  shows "\<exists>c. CreateDockerCompose stack = Inr c"
  using members_loop_returns [OF assms] by (simp add: CreateDockerCompose_def)

subsection \<open>The services one member emits\<close>

lemma Ports_final_core [simp]: "Ports (final_core stack m) = Ports (core_service m)"
  by (simp add: final_core_def)

lemma Volumes_final_core [simp]: "Volumes (final_core stack m) = Volumes (core_service m)"
  by (simp add: final_core_def)

lemma DependsOn_final_core:
  "DependsOn (final_core stack m) =
     Some (if Database stack = ''postgres''
           then [dataexchange_name m \<mapsto> [''condition'' \<mapsto> ''service_started''],
                 postgres_name m \<mapsto> [''condition'' \<mapsto> ''service_healthy'']]
           else [dataexchange_name m \<mapsto> [''condition'' \<mapsto> ''service_started'']])"
  by (simp add: final_core_names DependsOn_core_service)

lemma DependsOn_others [simp]:
  "DependsOn (postgres_service m) = None"
  "DependsOn (ipfs_service stack m) = None"
  "DependsOn (dataexchange_service m) = None"
  by (simp_all add: postgres_service_def ipfs_service_def dataexchange_service_def)

lemma emitted_cases:
  assumes "emitted stack m n = Some s"
  shows "(n = core_name m \<and> \<not> External m \<and> s = final_core stack m) \<or>
         (n = postgres_name m \<and> Database stack = ''postgres'' \<and> s = postgres_service m) \<or>
         (n = ipfs_name m \<and> s = ipfs_service stack m) \<or>
         (n = dataexchange_name m \<and> s = dataexchange_service m)"
  using assms by (auto simp: emitted_names split: if_splits)

lemma dom_emitted:
  "dom (emitted stack m) =
     (if External m then {} else {core_name m}) \<union>
     (if Database stack = ''postgres'' then {postgres_name m} else {}) \<union>
     {ipfs_name m, dataexchange_name m}"
  by (auto simp: emitted_names dom_def split: if_splits)

lemma generated_lookup:
  assumes "generated stack M c" "m \<in> M" "emitted stack m n = Some s0"
  shows "\<exists>s m'. m' \<in> M \<and> Services c n = Some s \<and> emitted stack m' n = Some s"
proof -
  from assms have "n \<in> dom (Services c)"
    unfolding generated_def by auto
  then obtain s where s: "Services c n = Some s" by blast
  with assms(1) obtain m' where "m' \<in> M" "emitted stack m' n = Some s"
    unfolding generated_def by blast
  with s show ?thesis by blast
qed

section \<open>Acyclicity of the dependencies\<close>

lemma depends_on_edge:
  assumes "generated stack M c" "(n, d) \<in> depends_on c"
  shows "(\<exists>m. n = core_name m) \<and> (\<forall>m. d \<noteq> core_name m)"
proof -
  from assms(2) obtain s deps where s: "Services c n = Some s" "DependsOn s = Some deps" "d \<in> dom deps"
    unfolding depends_on_def by blast
  from assms(1) s(1) obtain m where m: "emitted stack m n = Some s"
    unfolding generated_def by blast
  from emitted_cases [OF m] s(2) have core: "n = core_name m" "s = final_core stack m"
    by auto
  from core(2) s(2) s(3) have "d = dataexchange_name m \<or> d = postgres_name m"
    by (auto simp: DependsOn_final_core split: if_splits)
  then have "\<forall>m'. d \<noteq> core_name m'" by auto
  with core(1) show ?thesis by blast
qed

lemma depends_on_trancl:
  assumes "generated stack M c" "(n, d) \<in> (depends_on c)\<^sup>+"
  shows "(\<exists>m. n = core_name m) \<and> (\<forall>m. d \<noteq> core_name m)"
  using assms(2)
proof (induction rule: trancl.induct)
  case (r_into_trancl a b)
  from depends_on_edge [OF assms(1) this] show ?case .
next
  case (trancl_into_trancl a b c')
  from depends_on_edge [OF assms(1) trancl_into_trancl.hyps(2)]
  have "\<exists>m. b = core_name m" by blast
  with trancl_into_trancl.IH show ?case by blast
qed

text \<open>
  C6. In every topology that \<open>CreateDockerCompose\<close> returns, whatever the members and
  the database, the \<open>dependsOn\<close> relation has no cycle: only core services have
  dependencies, and they depend on data-exchange and database services only.
\<close>

theorem depends_on_acyclic:
  assumes "CreateDockerCompose stack = Inr c"
  shows "acyclic (depends_on c)"
proof -
  note gen = CreateDockerCompose_generated [OF assms]
  show ?thesis
    unfolding acyclic_def
  proof
    fix x
    show "(x, x) \<notin> (depends_on c)\<^sup>+"
    proof
      assume "(x, x) \<in> (depends_on c)\<^sup>+"
      from depends_on_trancl [OF gen this] show False by blast
    qed
  qed
qed

section \<open>Closure of the volumes\<close>

lemma stack_two_postgres_returns: "\<exists>c. CreateDockerCompose stack_two_postgres = Inr c"
  by (rule CreateDockerCompose_returns) (simp add: stack_two_postgres_def mk_member_def)

lemma stack_mixed_sqlite_returns: "\<exists>c. CreateDockerCompose stack_mixed_sqlite = Inr c"
  by (rule CreateDockerCompose_returns) (simp add: stack_mixed_sqlite_def)

lemma stack_colliding_returns: "\<exists>c. CreateDockerCompose stack_colliding = Inr c"
  by (rule CreateDockerCompose_returns)
    (simp add: stack_colliding_def colliding_member_0_def colliding_member_1_def)

theorem depends_on_acyclic_witness:
  "\<exists>c. CreateDockerCompose stack_two_postgres = Inr c \<and> acyclic (depends_on c)"
proof -
  from stack_two_postgres_returns obtain c where c: "CreateDockerCompose stack_two_postgres = Inr c"
    by blast
  from depends_on_acyclic [OF c] c show ?thesis by blast
qed

lemma volume_name_mount3:
  "CHR '':'' \<notin> set path \<Longrightarrow> volume_name (p @ i @ CHR '':'' # path) = p @ i"
  using volume_name_mount [of path "p @ i"] by simp

lemma volume_names_core: "map volume_name (Volumes (core_service m)) = [core_name m]"
proof -
  have "volume_name (''firefly_core_'' @ ID m @ '':/etc/firefly'') = ''firefly_core_'' @ ID m"
    by (rule volume_name_mount3) simp
  then show ?thesis
    by (simp add: core_service_def core_name_def)
qed

lemma volume_names_postgres: "map volume_name (Volumes (postgres_service m)) = [postgres_name m]"
proof -
  have "volume_name (''postgres_'' @ ID m @ '':/var/lib/postgresql/data'') = ''postgres_'' @ ID m"
    by (rule volume_name_mount3) simp
  then show ?thesis
    by (simp add: postgres_service_def postgres_name_def)
qed

lemma volume_names_ipfs:
  "map volume_name (Volumes (ipfs_service stack m)) = [''ipfs_staging_'' @ ID m, ''ipfs_data_'' @ ID m]"
proof -
  have "volume_name (''ipfs_staging_'' @ ID m @ '':/export'') = ''ipfs_staging_'' @ ID m"
    by (rule volume_name_mount3) simp
  moreover have "volume_name (''ipfs_data_'' @ ID m @ '':/data/ipfs'') = ''ipfs_data_'' @ ID m"
    by (rule volume_name_mount3) simp
  ultimately show ?thesis
    by (simp add: ipfs_service_def)
qed

lemma volume_names_dataexchange:
  "map volume_name (Volumes (dataexchange_service m)) = [dataexchange_name m]"
proof -
  have "volume_name (''dataexchange_'' @ ID m @ '':/data'') = ''dataexchange_'' @ ID m"
    by (rule volume_name_mount3) simp
  then show ?thesis
    by (simp add: dataexchange_service_def dataexchange_name_def)
qed

lemma emitted_volume_names:
  assumes "emitted stack m n = Some s"
  shows "map volume_name (Volumes s) =
           (if n = core_name m then [core_name m]
            else if n = postgres_name m then [postgres_name m]
            else if n = ipfs_name m then [''ipfs_staging_'' @ ID m, ''ipfs_data_'' @ ID m]
            else [dataexchange_name m])"
  using emitted_cases [OF assms]
  by (auto simp: volume_names_core volume_names_postgres volume_names_ipfs
      volume_names_dataexchange)

lemma emitted_volume_in:
  assumes "emitted stack m n = Some s" "e \<in> set (Volumes s)"
  shows "volume_name e \<in> emitted_volumes stack m"
proof -
  from assms(2) have "volume_name e \<in> set (map volume_name (Volumes s))" by simp
  then show ?thesis
    unfolding emitted_volume_names [OF assms(1)]
    using emitted_cases [OF assms(1)]
    by (auto simp: emitted_volumes_names split: if_splits)
qed

lemma emitted_volume_mounted:
  assumes "v \<in> emitted_volumes stack m"
  shows "\<exists>n s. emitted stack m n = Some s \<and> v \<in> set (map volume_name (Volumes s))"
proof -
  from assms consider (core) "\<not> External m" "v = core_name m"
    | (pg) "Database stack = ''postgres''" "v = postgres_name m"
    | (ipfs) "v = ''ipfs_staging_'' @ ID m \<or> v = ''ipfs_data_'' @ ID m"
    | (dx) "v = dataexchange_name m"
    by (auto simp: emitted_volumes_names split: if_splits)
  then show ?thesis
  proof cases
    case core
    then have "emitted stack m (core_name m) = Some (final_core stack m)"
      by (simp add: emitted_names)
    with core(2) show ?thesis
      by (metis Volumes_final_core volume_names_core list.set_intros(1))
  next
    case pg
    then have "emitted stack m (postgres_name m) = Some (postgres_service m)"
      by (simp add: emitted_names)
    with pg(2) show ?thesis
      by (metis volume_names_postgres list.set_intros(1))
  next
    case ipfs
    have "emitted stack m (ipfs_name m) = Some (ipfs_service stack m)"
      by (simp add: emitted_names)
    moreover from ipfs have "v \<in> set (map volume_name (Volumes (ipfs_service stack m)))"
      unfolding volume_names_ipfs by auto
    ultimately show ?thesis by blast
  next
    case dx
    have "emitted stack m (dataexchange_name m) = Some (dataexchange_service m)"
      by (simp add: emitted_names)
    with dx show ?thesis
      by (metis volume_names_dataexchange list.set_intros(1))
  qed
qed

lemma same_name_volume_names:
  assumes "emitted stack m n = Some s" "emitted stack m' n = Some s'"
  shows "map volume_name (Volumes s') = map volume_name (Volumes s)"
  unfolding emitted_volume_names [OF assms(1)] emitted_volume_names [OF assms(2)]
  using emitted_cases [OF assms(1)] emitted_cases [OF assms(2)]
  by (auto simp: core_name_def postgres_name_def ipfs_name_def dataexchange_name_def)

text \<open>
  C5. In every topology that \<open>CreateDockerCompose\<close> returns, whatever the members and
  the database: the volume name of every mount of every service is in the volume set of the
  topology, and every name in the volume set is the volume name of a mount of some service.
\<close>

theorem volume_closure:
  assumes "CreateDockerCompose stack = Inr c"
  shows "(\<forall>n s e. Services c n = Some s \<and> e \<in> set (Volumes s) \<longrightarrow> volume_name e \<in> TopVolumes c) \<and>
         (\<forall>v\<in>TopVolumes c. \<exists>n s e. Services c n = Some s \<and> e \<in> set (Volumes s) \<and> volume_name e = v)"
proof (intro conjI allI impI ballI)
  note gen = CreateDockerCompose_generated [OF assms]
  fix n s e assume a: "Services c n = Some s \<and> e \<in> set (Volumes s)"
  with gen obtain m where m: "m \<in> set (Members stack)" "emitted stack m n = Some s"
    unfolding generated_def by blast
  from emitted_volume_in [OF m(2)] a have "volume_name e \<in> emitted_volumes stack m" by blast
  with m(1) gen show "volume_name e \<in> TopVolumes c"
    unfolding generated_def by blast
next
  note gen = CreateDockerCompose_generated [OF assms]
  fix v assume "v \<in> TopVolumes c"
  with gen obtain m where m: "m \<in> set (Members stack)" "v \<in> emitted_volumes stack m"
    unfolding generated_def by blast
  from emitted_volume_mounted [OF m(2)] obtain n s0
    where s0: "emitted stack m n = Some s0" "v \<in> set (map volume_name (Volumes s0))" by blast
  from generated_lookup [OF gen m(1) s0(1)] obtain s m'
    where s: "Services c n = Some s" "emitted stack m' n = Some s" by blast
  from same_name_volume_names [OF s0(1) s(2)] s0(2)
  have "v \<in> set (map volume_name (Volumes s))" by simp
  then obtain e where "e \<in> set (Volumes s)" "volume_name e = v" by auto
  with s(1) show "\<exists>n s e. Services c n = Some s \<and> e \<in> set (Volumes s) \<and> volume_name e = v"
    by blast
qed

theorem volume_closure_witness:
  "\<exists>c. CreateDockerCompose stack_mixed_sqlite = Inr c \<and>
       (\<forall>n s e. Services c n = Some s \<and> e \<in> set (Volumes s) \<longrightarrow> volume_name e \<in> TopVolumes c) \<and>
       (\<forall>v\<in>TopVolumes c. \<exists>n s e. Services c n = Some s \<and> e \<in> set (Volumes s) \<and> volume_name e = v)"
proof -
  from stack_mixed_sqlite_returns obtain c where c: "CreateDockerCompose stack_mixed_sqlite = Inr c"
    by blast
  from volume_closure [OF c] c show ?thesis by blast
qed

section \<open>The published ports and the two-member scenario\<close>

lemma Ports_core_service:
  "Ports (core_service m) =
     [fmt_d (ExposedFireflyPort m) @ '':'' @ fmt_d (ExposedFireflyPort m),
      fmt_d (ExposedFireflyAdminPort m) @ '':'' @ fmt_d (ExposedFireflyAdminPort m)]"
  by (simp add: core_service_def)

lemma Ports_postgres_service:
  "Ports (postgres_service m) = [fmt_d (ExposedPostgresPort m) @ '':5432'']"
  by (simp add: postgres_service_def)

lemma Ports_ipfs_service:
  "Ports (ipfs_service stack m) =
     [fmt_d (ExposedIPFSApiPort m) @ '':5001'', fmt_d (ExposedIPFSGWPort m) @ '':8080'']"
  by (simp add: ipfs_service_def)

lemma Ports_dataexchange_service:
  "Ports (dataexchange_service m) = [fmt_d (ExposedDataexchangePort m) @ '':3000'']"
  by (simp add: dataexchange_service_def)

lemma generated_member_core:
  assumes "generated stack M c" "m \<in> M" "\<not> External m"
  shows "\<exists>m'\<in>M. ID m' = ID m \<and> \<not> External m' \<and> Services c (core_name m) = Some (final_core stack m')"
proof -
  from assms(3) have "emitted stack m (core_name m) = Some (final_core stack m)"
    by (simp add: emitted_names)
  from generated_lookup [OF assms(1,2) this] obtain s m'
    where s: "m' \<in> M" "Services c (core_name m) = Some s" "emitted stack m' (core_name m) = Some s"
    by blast
  from emitted_cases [OF s(3)] have "ID m' = ID m \<and> \<not> External m' \<and> s = final_core stack m'"
    by auto
  with s show ?thesis by blast
qed

lemma generated_member_postgres:
  assumes "generated stack M c" "m \<in> M" "Database stack = ''postgres''"
  shows "\<exists>m'\<in>M. ID m' = ID m \<and> Services c (postgres_name m) = Some (postgres_service m')"
proof -
  from assms(3) have "emitted stack m (postgres_name m) = Some (postgres_service m)"
    by (simp add: emitted_names)
  from generated_lookup [OF assms(1,2) this] obtain s m'
    where s: "m' \<in> M" "Services c (postgres_name m) = Some s"
      "emitted stack m' (postgres_name m) = Some s"
    by blast
  from emitted_cases [OF s(3)] have "ID m' = ID m \<and> s = postgres_service m'"
    by auto
  with s show ?thesis by blast
qed

lemma generated_member_ipfs:
  assumes "generated stack M c" "m \<in> M"
  shows "\<exists>m'\<in>M. ID m' = ID m \<and> Services c (ipfs_name m) = Some (ipfs_service stack m')"
proof -
  have "emitted stack m (ipfs_name m) = Some (ipfs_service stack m)"
    by (simp add: emitted_names)
  from generated_lookup [OF assms this] obtain s m'
    where s: "m' \<in> M" "Services c (ipfs_name m) = Some s" "emitted stack m' (ipfs_name m) = Some s"
    by blast
  from emitted_cases [OF s(3)] have "ID m' = ID m \<and> s = ipfs_service stack m'"
    by auto
  with s show ?thesis by blast
qed

lemma generated_member_dataexchange:
  assumes "generated stack M c" "m \<in> M"
  shows "\<exists>m'\<in>M. ID m' = ID m \<and> Services c (dataexchange_name m) = Some (dataexchange_service m')"
proof -
  have "emitted stack m (dataexchange_name m) = Some (dataexchange_service m)"
    by (simp add: emitted_names)
  from generated_lookup [OF assms this] obtain s m'
    where s: "m' \<in> M" "Services c (dataexchange_name m) = Some s"
      "emitted stack m' (dataexchange_name m) = Some s"
    by blast
  from emitted_cases [OF s(3)] have "ID m' = ID m \<and> s = dataexchange_service m'"
    by auto
  with s show ?thesis by blast
qed

text \<open>
  C10. In every topology that \<open>CreateDockerCompose\<close> returns, for every member of the
  stack: when the member is not external, the service stored under its core name publishes
  two pairs, each mapping a host port to the same container port (the core port and the
  admin port); the database service (when the database is postgres), the content-store
  service and the data-exchange service stored under its names map their host ports to the
  fixed container ports 5432, 5001 and 8080, and 3000. The host ports are those of the member
  that stored the service last, a member of the same id: the member itself when the ids are
  unique.
\<close>

theorem published_port_pairs:
  assumes "CreateDockerCompose stack = Inr c" and "m \<in> set (Members stack)"
  shows "(\<not> External m \<longrightarrow>
            (\<exists>s m'. m' \<in> set (Members stack) \<and> ID m' = ID m \<and> \<not> External m' \<and>
               Services c (''firefly_core_'' @ ID m) = Some s \<and>
               Ports s = [fmt_d (ExposedFireflyPort m') @ '':'' @ fmt_d (ExposedFireflyPort m'),
                          fmt_d (ExposedFireflyAdminPort m') @ '':'' @ fmt_d (ExposedFireflyAdminPort m')])) \<and>
         (Database stack = ''postgres'' \<longrightarrow>
            (\<exists>s m'. m' \<in> set (Members stack) \<and> ID m' = ID m \<and>
               Services c (''postgres_'' @ ID m) = Some s \<and>
               Ports s = [fmt_d (ExposedPostgresPort m') @ '':5432''])) \<and>
         (\<exists>s m'. m' \<in> set (Members stack) \<and> ID m' = ID m \<and>
               Services c (''ipfs_'' @ ID m) = Some s \<and>
               Ports s = [fmt_d (ExposedIPFSApiPort m') @ '':5001'',
                          fmt_d (ExposedIPFSGWPort m') @ '':8080'']) \<and>
         (\<exists>s m'. m' \<in> set (Members stack) \<and> ID m' = ID m \<and>
               Services c (''dataexchange_'' @ ID m) = Some s \<and>
               Ports s = [fmt_d (ExposedDataexchangePort m') @ '':3000''])"
proof (intro conjI impI)
  note gen = CreateDockerCompose_generated [OF assms(1)]
  {
    assume "\<not> External m"
    from generated_member_core [OF gen assms(2) this] obtain m'
      where "m' \<in> set (Members stack)" "ID m' = ID m" "\<not> External m'"
        "Services c (core_name m) = Some (final_core stack m')" by blast
    then show "\<exists>s m'. m' \<in> set (Members stack) \<and> ID m' = ID m \<and> \<not> External m' \<and>
               Services c (''firefly_core_'' @ ID m) = Some s \<and>
               Ports s = [fmt_d (ExposedFireflyPort m') @ '':'' @ fmt_d (ExposedFireflyPort m'),
                          fmt_d (ExposedFireflyAdminPort m') @ '':'' @ fmt_d (ExposedFireflyAdminPort m')]"
      unfolding core_name_def using Ports_core_service [of m'] Ports_final_core [of stack m']
      by metis
  }
  {
    assume "Database stack = ''postgres''"
    from generated_member_postgres [OF gen assms(2) this] obtain m'
      where "m' \<in> set (Members stack)" "ID m' = ID m"
        "Services c (postgres_name m) = Some (postgres_service m')" by blast
    then show "\<exists>s m'. m' \<in> set (Members stack) \<and> ID m' = ID m \<and>
               Services c (''postgres_'' @ ID m) = Some s \<and>
               Ports s = [fmt_d (ExposedPostgresPort m') @ '':5432'']"
      unfolding postgres_name_def using Ports_postgres_service [of m'] by metis
  }
  {
    from generated_member_ipfs [OF gen assms(2)] obtain m'
      where "m' \<in> set (Members stack)" "ID m' = ID m"
        "Services c (ipfs_name m) = Some (ipfs_service stack m')" by blast
    then show "\<exists>s m'. m' \<in> set (Members stack) \<and> ID m' = ID m \<and>
               Services c (''ipfs_'' @ ID m) = Some s \<and>
               Ports s = [fmt_d (ExposedIPFSApiPort m') @ '':5001'',
                          fmt_d (ExposedIPFSGWPort m') @ '':8080'']"
      unfolding ipfs_name_def using Ports_ipfs_service [of stack m'] by metis
  }
  {
    from generated_member_dataexchange [OF gen assms(2)] obtain m'
      where "m' \<in> set (Members stack)" "ID m' = ID m"
        "Services c (dataexchange_name m) = Some (dataexchange_service m')" by blast
    then show "\<exists>s m'. m' \<in> set (Members stack) \<and> ID m' = ID m \<and>
               Services c (''dataexchange_'' @ ID m) = Some s \<and>
               Ports s = [fmt_d (ExposedDataexchangePort m') @ '':3000'']"
      unfolding dataexchange_name_def using Ports_dataexchange_service [of m'] by metis
  }
qed

lemma char_of_digit:
  "char_of (48::nat) = CHR ''0''" "char_of (49::nat) = CHR ''1''" "char_of (50::nat) = CHR ''2''"
  "char_of (51::nat) = CHR ''3''" "char_of (52::nat) = CHR ''4''" "char_of (53::nat) = CHR ''5''"
  "char_of (54::nat) = CHR ''6''" "char_of (55::nat) = CHR ''7''" "char_of (56::nat) = CHR ''8''"
  "char_of (57::nat) = CHR ''9''"
  by (simp_all add: char_of_def bit_iff_odd drop_bit_eq_div)

lemmas fmt_d_eval = fmt_d_def digits.simps digit_char_def char_of_digit

lemma fmt_d_examples:
  "fmt_d 5000 = ''5000''" "fmt_d 5001 = ''5001''" "fmt_d 5002 = ''5002''"
  "fmt_d 5101 = ''5101''" "fmt_d 5104 = ''5104''" "fmt_d 5105 = ''5105''"
  "fmt_d 5106 = ''5106''" "fmt_d 5107 = ''5107''"
  by (simp_all add: fmt_d_eval)

theorem published_port_pairs_witness:
  "\<exists>c. CreateDockerCompose stack_two_postgres = Inr c \<and>
       (\<exists>s. Services c ''firefly_core_0'' = Some s \<and> Ports s = [''5000:5000'', ''5101:5101'']) \<and>
       (\<exists>s. Services c ''postgres_0'' = Some s \<and> Ports s = [''5104:5432'']) \<and>
       (\<exists>s. Services c ''ipfs_0'' = Some s \<and> Ports s = [''5106:5001'', ''5107:8080'']) \<and>
       (\<exists>s. Services c ''dataexchange_0'' = Some s \<and> Ports s = [''5105:3000''])"
proof -
  from stack_two_postgres_returns obtain c where c: "CreateDockerCompose stack_two_postgres = Inr c"
    by blast
  have mem: "mk_member ''0'' 5000 5100 False \<in> set (Members stack_two_postgres)"
    by (simp add: stack_two_postgres_def)
  have only: "\<And>m'. m' \<in> set (Members stack_two_postgres) \<Longrightarrow> ID m' = ''0''
                \<Longrightarrow> m' = mk_member ''0'' 5000 5100 False"
    by (auto simp: stack_two_postgres_def mk_member_def)
  have db: "Database stack_two_postgres = ''postgres''"
    by (simp add: stack_two_postgres_def)
  have ext: "\<not> External (mk_member ''0'' 5000 5100 False)" and id0: "ID (mk_member ''0'' 5000 5100 False) = ''0''"
    by (simp_all add: mk_member_def)
  note pp = published_port_pairs [OF c mem, unfolded id0]
  from pp ext obtain s1 m1 where s1: "m1 \<in> set (Members stack_two_postgres)" "ID m1 = ''0''"
      "Services c (''firefly_core_'' @ ''0'') = Some s1"
      "Ports s1 = [fmt_d (ExposedFireflyPort m1) @ '':'' @ fmt_d (ExposedFireflyPort m1),
                   fmt_d (ExposedFireflyAdminPort m1) @ '':'' @ fmt_d (ExposedFireflyAdminPort m1)]"
    by blast
  from pp db obtain s2 m2 where s2: "m2 \<in> set (Members stack_two_postgres)" "ID m2 = ''0''"
      "Services c (''postgres_'' @ ''0'') = Some s2"
      "Ports s2 = [fmt_d (ExposedPostgresPort m2) @ '':5432'']"
    by blast
  from pp obtain s3 m3 where s3: "m3 \<in> set (Members stack_two_postgres)" "ID m3 = ''0''"
      "Services c (''ipfs_'' @ ''0'') = Some s3"
      "Ports s3 = [fmt_d (ExposedIPFSApiPort m3) @ '':5001'', fmt_d (ExposedIPFSGWPort m3) @ '':8080'']"
    by blast
  from pp obtain s4 m4 where s4: "m4 \<in> set (Members stack_two_postgres)" "ID m4 = ''0''"
      "Services c (''dataexchange_'' @ ''0'') = Some s4"
      "Ports s4 = [fmt_d (ExposedDataexchangePort m4) @ '':3000'']"
    by blast
  have p1: "Ports s1 = [''5000:5000'', ''5101:5101'']"
    using s1(4) only [OF s1(1,2)] by (simp add: mk_member_def fmt_d_examples)
  have p2: "Ports s2 = [''5104:5432'']"
    using s2(4) only [OF s2(1,2)] by (simp add: mk_member_def fmt_d_examples)
  have p3: "Ports s3 = [''5106:5001'', ''5107:8080'']"
    using s3(4) only [OF s3(1,2)] by (simp add: mk_member_def fmt_d_examples)
  have p4: "Ports s4 = [''5105:3000'']"
    using s4(4) only [OF s4(1,2)] by (simp add: mk_member_def fmt_d_examples)
  from c s1(3) p1 s2(3) p2 s3(3) p3 s4(3) p4 show ?thesis by simp
qed

lemma two_member_services:
  assumes "Members stack = [m0, m1]" and "Database stack = ''postgres''"
    and "\<not> External m0" and "\<not> External m1" and "ID m0 \<noteq> ID m1"
  shows "\<exists>c. CreateDockerCompose stack = Inr c \<and>
           dom (Services c) =
             {core_name m0, core_name m1, postgres_name m0, postgres_name m1,
              ipfs_name m0, ipfs_name m1, dataexchange_name m0, dataexchange_name m1} \<and>
           card (dom (Services c)) = 8 \<and>
           Services c (core_name m0) = Some (final_core stack m0) \<and>
           Services c (core_name m1) = Some (final_core stack m1) \<and>
           Services c (postgres_name m0) = Some (postgres_service m0) \<and>
           Services c (postgres_name m1) = Some (postgres_service m1) \<and>
           Services c (ipfs_name m0) = Some (ipfs_service stack m0) \<and>
           Services c (ipfs_name m1) = Some (ipfs_service stack m1) \<and>
           Services c (dataexchange_name m0) = Some (dataexchange_service m0) \<and>
           Services c (dataexchange_name m1) = Some (dataexchange_service m1) \<and>
           TopVolumes c =
             {core_name m0, core_name m1, postgres_name m0, postgres_name m1,
              ''ipfs_staging_'' @ ID m0, ''ipfs_staging_'' @ ID m1,
              ''ipfs_data_'' @ ID m0, ''ipfs_data_'' @ ID m1,
              dataexchange_name m0, dataexchange_name m1}"
proof -
  have "\<exists>c. CreateDockerCompose stack = Inr c"
    by (rule CreateDockerCompose_returns) (simp add: assms)
  then obtain c where c: "CreateDockerCompose stack = Inr c" by blast
  from CreateDockerCompose_generated [OF c] have gen: "generated stack {m0, m1} c"
    by (simp add: assms(1) insert_commute)
  then have "dom (Services c) = dom (emitted stack m0) \<union> dom (emitted stack m1)"
    unfolding generated_def by simp
  then have d: "dom (Services c) =
             {core_name m0, core_name m1, postgres_name m0, postgres_name m1,
              ipfs_name m0, ipfs_name m1, dataexchange_name m0, dataexchange_name m1}"
    by (simp add: dom_emitted assms) blast
  have k: "card {core_name m0, core_name m1, postgres_name m0, postgres_name m1,
              ipfs_name m0, ipfs_name m1, dataexchange_name m0, dataexchange_name m1} = 8"
    using assms(5) by (simp add: card_insert_if)
  from gen have "TopVolumes c = emitted_volumes stack m0 \<union> emitted_volumes stack m1"
    unfolding generated_def by simp
  then have v: "TopVolumes c =
             {core_name m0, core_name m1, postgres_name m0, postgres_name m1,
              ''ipfs_staging_'' @ ID m0, ''ipfs_staging_'' @ ID m1,
              ''ipfs_data_'' @ ID m0, ''ipfs_data_'' @ ID m1,
              dataexchange_name m0, dataexchange_name m1}"
    by (simp add: emitted_volumes_names assms) blast
  have only0: "\<And>a. a \<in> {m0, m1} \<Longrightarrow> ID a = ID m0 \<Longrightarrow> a = m0"
    and only1: "\<And>a. a \<in> {m0, m1} \<Longrightarrow> ID a = ID m1 \<Longrightarrow> a = m1"
    using assms(5) by auto
  have in0: "m0 \<in> {m0, m1}" and in1: "m1 \<in> {m0, m1}" by simp_all
  from generated_member_core [OF gen in0 assms(3)] only0
  have s0: "Services c (core_name m0) = Some (final_core stack m0)" by metis
  from generated_member_core [OF gen in1 assms(4)] only1
  have s1: "Services c (core_name m1) = Some (final_core stack m1)" by metis
  from generated_member_postgres [OF gen in0 assms(2)] only0
  have p0: "Services c (postgres_name m0) = Some (postgres_service m0)" by metis
  from generated_member_postgres [OF gen in1 assms(2)] only1
  have p1: "Services c (postgres_name m1) = Some (postgres_service m1)" by metis
  from generated_member_ipfs [OF gen in0] only0
  have i0: "Services c (ipfs_name m0) = Some (ipfs_service stack m0)" by metis
  from generated_member_ipfs [OF gen in1] only1
  have i1: "Services c (ipfs_name m1) = Some (ipfs_service stack m1)" by metis
  from generated_member_dataexchange [OF gen in0] only0
  have x0: "Services c (dataexchange_name m0) = Some (dataexchange_service m0)" by metis
  from generated_member_dataexchange [OF gen in1] only1
  have x1: "Services c (dataexchange_name m1) = Some (dataexchange_service m1)" by metis
  from d k have k': "card (dom (Services c)) = 8" by simp
  from c d k' s0 s1 p0 p1 i0 i1 x0 x1 v show ?thesis
    by (intro exI [of _ c] conjI)
qed

text \<open>
  C2. For two members of different ids, neither external, and the postgres database (member
  count 2, no external process), \<open>CreateDockerCompose\<close> returns a topology with exactly
  eight services: under the core name of each member the core service of lines 81-92, its
  \<open>DependsOn\<close> mapping the data-exchange service of the member to the condition
  \<open>service_started\<close> and its database service to \<open>service_healthy\<close> (the
  spellings in the compose file of the conditions that the spec calls started and healthy);
  under its database name the database service of lines 98-113, with its health check; under
  its content-store name the service of lines 120-135; and under its data-exchange name the
  service of lines 140-145. The volume set holds the ten volumes of these services.
\<close>

theorem two_member_postgres_topology:
  assumes "Members stack = [m0, m1]" and "Database stack = ''postgres''"
    and "\<not> External m0" and "\<not> External m1" and "ID m0 \<noteq> ID m1"
  shows "\<exists>c. CreateDockerCompose stack = Inr c \<and>
           dom (Services c) =
             {''firefly_core_'' @ ID m0, ''firefly_core_'' @ ID m1,
              ''postgres_'' @ ID m0, ''postgres_'' @ ID m1,
              ''ipfs_'' @ ID m0, ''ipfs_'' @ ID m1,
              ''dataexchange_'' @ ID m0, ''dataexchange_'' @ ID m1} \<and>
           card (dom (Services c)) = 8 \<and>
           Services c (''firefly_core_'' @ ID m0) =
             Some ((core_service m0)\<lparr> DependsOn :=
                Some [''dataexchange_'' @ ID m0 \<mapsto> [''condition'' \<mapsto> ''service_started''],
                      ''postgres_'' @ ID m0 \<mapsto> [''condition'' \<mapsto> ''service_healthy'']] \<rparr>) \<and>
           Services c (''firefly_core_'' @ ID m1) =
             Some ((core_service m1)\<lparr> DependsOn :=
                Some [''dataexchange_'' @ ID m1 \<mapsto> [''condition'' \<mapsto> ''service_started''],
                      ''postgres_'' @ ID m1 \<mapsto> [''condition'' \<mapsto> ''service_healthy'']] \<rparr>) \<and>
           Services c (''postgres_'' @ ID m0) = Some (postgres_service m0) \<and>
           Services c (''postgres_'' @ ID m1) = Some (postgres_service m1) \<and>
           Services c (''ipfs_'' @ ID m0) = Some (ipfs_service stack m0) \<and>
           Services c (''ipfs_'' @ ID m1) = Some (ipfs_service stack m1) \<and>
           Services c (''dataexchange_'' @ ID m0) = Some (dataexchange_service m0) \<and>
           Services c (''dataexchange_'' @ ID m1) = Some (dataexchange_service m1) \<and>
           TopVolumes c =
             {''firefly_core_'' @ ID m0, ''firefly_core_'' @ ID m1,
              ''postgres_'' @ ID m0, ''postgres_'' @ ID m1,
              ''ipfs_staging_'' @ ID m0, ''ipfs_staging_'' @ ID m1,
              ''ipfs_data_'' @ ID m0, ''ipfs_data_'' @ ID m1,
              ''dataexchange_'' @ ID m0, ''dataexchange_'' @ ID m1}"
  using two_member_services [OF assms]
  unfolding final_core_def if_P [OF assms(2)]
    core_name_def postgres_name_def ipfs_name_def dataexchange_name_def .

theorem two_member_postgres_topology_witness:
  "\<exists>c. CreateDockerCompose stack_two_postgres = Inr c \<and>
       dom (Services c) =
         {''firefly_core_0'', ''firefly_core_1'', ''postgres_0'', ''postgres_1'',
          ''ipfs_0'', ''ipfs_1'', ''dataexchange_0'', ''dataexchange_1''} \<and>
       card (dom (Services c)) = 8 \<and>
       Services c ''firefly_core_0'' =
         Some ((core_service (mk_member ''0'' 5000 5100 False))\<lparr> DependsOn :=
            Some [''dataexchange_0'' \<mapsto> [''condition'' \<mapsto> ''service_started''],
                  ''postgres_0'' \<mapsto> [''condition'' \<mapsto> ''service_healthy'']] \<rparr>) \<and>
       Services c ''firefly_core_1'' =
         Some ((core_service (mk_member ''1'' 5001 5200 False))\<lparr> DependsOn :=
            Some [''dataexchange_1'' \<mapsto> [''condition'' \<mapsto> ''service_started''],
                  ''postgres_1'' \<mapsto> [''condition'' \<mapsto> ''service_healthy'']] \<rparr>) \<and>
       Services c ''postgres_0'' = Some (postgres_service (mk_member ''0'' 5000 5100 False)) \<and>
       Services c ''postgres_1'' = Some (postgres_service (mk_member ''1'' 5001 5200 False)) \<and>
       Services c ''ipfs_0'' = Some (ipfs_service stack_two_postgres (mk_member ''0'' 5000 5100 False)) \<and>
       Services c ''ipfs_1'' = Some (ipfs_service stack_two_postgres (mk_member ''1'' 5001 5200 False)) \<and>
       Services c ''dataexchange_0'' = Some (dataexchange_service (mk_member ''0'' 5000 5100 False)) \<and>
       Services c ''dataexchange_1'' = Some (dataexchange_service (mk_member ''1'' 5001 5200 False)) \<and>
       TopVolumes c =
         {''firefly_core_0'', ''firefly_core_1'', ''postgres_0'', ''postgres_1'',
          ''ipfs_staging_0'', ''ipfs_staging_1'', ''ipfs_data_0'', ''ipfs_data_1'',
          ''dataexchange_0'', ''dataexchange_1''}"
proof -
  have h1: "Members stack_two_postgres
              = [mk_member ''0'' 5000 5100 False, mk_member ''1'' 5001 5200 False]"
    and h2: "Database stack_two_postgres = ''postgres''"
    by (simp_all add: stack_two_postgres_def)
  have h3: "\<not> External (mk_member ''0'' 5000 5100 False)"
    and h4: "\<not> External (mk_member ''1'' 5001 5200 False)"
    and id0: "ID (mk_member ''0'' 5000 5100 False) = ''0''"
    and id1: "ID (mk_member ''1'' 5001 5200 False) = ''1''"
    by (simp_all add: mk_member_def)
  have h5: "ID (mk_member ''0'' 5000 5100 False) \<noteq> ID (mk_member ''1'' 5001 5200 False)"
    by (simp add: id0 id1)
  from two_member_postgres_topology [OF h1 h2 h3 h4 h5] show ?thesis
    by (simp only: id0 id1 append_Cons append_Nil)
qed

lemma example_postgres_service:
  "postgres_service (mk_member ''0'' 5000 5100 False) =
     \<lparr> Image = ''postgres'', Build = '''', Command = '''',
       Environment = [''POSTGRES_PASSWORD'' \<mapsto> ''f1refly'',
                      ''PGDATA'' \<mapsto> ''/var/lib/postgresql/data/pgdata''],
       Volumes = [''postgres_0:/var/lib/postgresql/data''],
       Ports = [''5104:5432''],
       DependsOn = None,
       HealthCheck = Some \<lparr> Test = [''CMD-SHELL'', ''pg_isready -U postgres''],
                            Interval = ''5s'', Timeout = ''3s'', Retries = 12 \<rparr>,
       Logging = Some StandardLogOptions \<rparr>"
  by (simp add: postgres_service_def mk_member_def fmt_d_examples)

section \<open>Disjointness of the published host ports\<close>

lemma host_port_pairs [simp]:
  "host_port (fmt_d h @ '':'' @ rest) = fmt_d h"
  using host_port_fmt_d [of h rest] by simp

lemma emitted_port_slot:
  assumes "emitted stack m n = Some s" "i < length (Ports s)"
  shows "\<exists>k<6. port_slot m k = (n, i) \<and> host_port (Ports s ! i) = fmt_d (member_ports m ! k)"
proof -
  from emitted_cases [OF assms(1)]
  consider (core) "n = core_name m" "s = final_core stack m"
    | (pg) "n = postgres_name m" "s = postgres_service m"
    | (ipfs) "n = ipfs_name m" "s = ipfs_service stack m"
    | (dx) "n = dataexchange_name m" "s = dataexchange_service m"
    by blast
  then show ?thesis
  proof cases
    case core
    with assms(2) have "i = 0 \<or> i = 1" by (auto simp: Ports_core_service)
    then show ?thesis
    proof
      assume "i = 0"
      with core have "port_slot m 0 = (n, i) \<and> host_port (Ports s ! i) = fmt_d (member_ports m ! 0)"
        by (simp add: port_slot_def Ports_core_service member_ports_def)
      then show ?thesis by (intro exI [of _ 0]) simp
    next
      assume "i = 1"
      with core have "port_slot m 1 = (n, i) \<and> host_port (Ports s ! i) = fmt_d (member_ports m ! 1)"
        by (simp add: port_slot_def Ports_core_service member_ports_def)
      then show ?thesis by (intro exI [of _ 1]) simp
    qed
  next
    case pg
    with assms(2) have "i = 0" by (simp add: Ports_postgres_service)
    with pg have "port_slot m 2 = (n, i) \<and> host_port (Ports s ! i) = fmt_d (member_ports m ! 2)"
      by (simp add: port_slot_def Ports_postgres_service member_ports_def)
    then show ?thesis by (intro exI [of _ 2]) simp
  next
    case ipfs
    with assms(2) have "i = 0 \<or> i = 1" by (auto simp: Ports_ipfs_service)
    then show ?thesis
    proof
      assume "i = 0"
      with ipfs have "port_slot m 3 = (n, i) \<and> host_port (Ports s ! i) = fmt_d (member_ports m ! 3)"
        by (simp add: port_slot_def Ports_ipfs_service member_ports_def)
      then show ?thesis by (intro exI [of _ 3]) simp
    next
      assume "i = 1"
      with ipfs have "port_slot m 4 = (n, i) \<and> host_port (Ports s ! i) = fmt_d (member_ports m ! 4)"
        by (simp add: port_slot_def Ports_ipfs_service member_ports_def)
      then show ?thesis by (intro exI [of _ 4]) simp
    qed
  next
    case dx
    with assms(2) have "i = 0" by (simp add: Ports_dataexchange_service)
    with dx have "port_slot m 5 = (n, i) \<and> host_port (Ports s ! i) = fmt_d (member_ports m ! 5)"
      by (simp add: port_slot_def Ports_dataexchange_service member_ports_def)
    then show ?thesis by (intro exI [of _ 5]) simp
  qed
qed

lemma distinct_concat_member:
  "distinct (concat xss) \<Longrightarrow> xs \<in> set xss \<Longrightarrow> distinct xs"
  by (induction xss) auto

lemma length_member_ports [simp]: "length (member_ports m) = 6"
  by (simp add: member_ports_def)

lemma distinct_ports_same_slot:
  assumes "distinct (concat (map member_ports ms))"
    and "m1 \<in> set ms" and "m2 \<in> set ms" and "k1 < 6" and "k2 < 6"
    and "member_ports m1 ! k1 = member_ports m2 ! k2"
  shows "m1 = m2 \<and> k1 = k2"
proof -
  from assms(2) obtain a where a: "a < length ms" "ms ! a = m1" by (auto simp: in_set_conv_nth)
  from assms(3) obtain b where b: "b < length ms" "ms ! b = m2" by (auto simp: in_set_conv_nth)
  let ?x = "member_ports m1 ! k1"
  have "?x \<in> set (map member_ports ms ! a)" using a assms(4) by simp
  moreover have "?x \<in> set (map member_ports ms ! b)" using b assms(5,6) by simp
  ultimately have "a = b"
    using distinct_concat_nth [OF assms(1), of a b ?x] a(1) b(1) by simp
  with a b have same: "m1 = m2" by simp
  have "distinct (member_ports m1)"
    using distinct_concat_member [OF assms(1)] assms(2) by simp
  with assms(4,5,6) same have "k1 = k2"
    by (simp add: nth_eq_iff_index_eq)
  with same show ?thesis by simp
qed

text \<open>
  C7, amended. In every topology that \<open>CreateDockerCompose\<close> returns for members whose
  exposed ports are pairwise different, across the members and across the six port fields
  (as they are when the port of member \<open>i\<close> in each family is the base port of the family
  plus \<open>i\<close> and the bases lie at least the member count apart), no two published ports,
  of the same service or of two services, have the same host port.
\<close>

theorem host_ports_distinct:
  assumes "CreateDockerCompose stack = Inr c"
    and "distinct (concat (map member_ports (Members stack)))"
    and "Services c n1 = Some s1" and "i < length (Ports s1)"
    and "Services c n2 = Some s2" and "j < length (Ports s2)"
    and "(n1, i) \<noteq> (n2, j)"
  shows "host_port (Ports s1 ! i) \<noteq> host_port (Ports s2 ! j)"
proof
  assume eq: "host_port (Ports s1 ! i) = host_port (Ports s2 ! j)"
  note gen = CreateDockerCompose_generated [OF assms(1)]
  from gen assms(3) obtain m1 where m1: "m1 \<in> set (Members stack)" "emitted stack m1 n1 = Some s1"
    unfolding generated_def by blast
  from gen assms(5) obtain m2 where m2: "m2 \<in> set (Members stack)" "emitted stack m2 n2 = Some s2"
    unfolding generated_def by blast
  from emitted_port_slot [OF m1(2) assms(4)] obtain k1
    where k1: "k1 < 6" "port_slot m1 k1 = (n1, i)"
      "host_port (Ports s1 ! i) = fmt_d (member_ports m1 ! k1)" by blast
  from emitted_port_slot [OF m2(2) assms(6)] obtain k2
    where k2: "k2 < 6" "port_slot m2 k2 = (n2, j)"
      "host_port (Ports s2 ! j) = fmt_d (member_ports m2 ! k2)" by blast
  from eq k1(3) k2(3) have "member_ports m1 ! k1 = member_ports m2 ! k2"
    by (simp add: fmt_d_inj)
  from distinct_ports_same_slot [OF assms(2) m1(1) m2(1) k1(1) k2(1) this]
  have "m1 = m2" "k1 = k2" by simp_all
  with k1(2) k2(2) have "(n1, i) = (n2, j)" by simp
  with assms(7) show False by (rule notE)
qed

lemma stack_colliding_derived:
  "derived_ports 5000 5001 5100 5200 5300 5400 (Members stack_colliding)"
  by (simp add: derived_ports_def stack_colliding_def colliding_member_0_def
      colliding_member_1_def upt_rec)

text \<open>
  C7, as stated, fails: ports derived as the base port of the family plus the index of the
  member are different across the members within each family, but the families may overlap.
  With the core base 5000 and the admin base 5001, the admin port of member 0 and the core
  port of member 1 are both 5001, and two core services publish the host port 5001.
\<close>

theorem host_ports_derived_counterexample:
  "derived_ports 5000 5001 5100 5200 5300 5400 (Members stack_colliding) \<and>
   distinct (map ExposedFireflyPort (Members stack_colliding)) \<and>
   distinct (map ExposedFireflyAdminPort (Members stack_colliding)) \<and>
   (\<exists>c s1 s2. CreateDockerCompose stack_colliding = Inr c \<and>
      Services c ''firefly_core_0'' = Some s1 \<and> Services c ''firefly_core_1'' = Some s2 \<and>
      1 < length (Ports s1) \<and> 0 < length (Ports s2) \<and>
      host_port (Ports s1 ! 1) = host_port (Ports s2 ! 0))"
proof -
  have ms: "set (Members stack_colliding) = {colliding_member_0, colliding_member_1}"
    by (simp add: stack_colliding_def)
  have id0: "ID colliding_member_0 = ''0''" and id1: "ID colliding_member_1 = ''1''"
    and e0: "\<not> External colliding_member_0" and e1: "\<not> External colliding_member_1"
    by (simp_all add: colliding_member_0_def colliding_member_1_def)
  from stack_colliding_returns obtain c where c: "CreateDockerCompose stack_colliding = Inr c"
    by blast
  from CreateDockerCompose_generated [OF c]
  have gen: "generated stack_colliding {colliding_member_0, colliding_member_1} c"
    by (simp only: ms)
  have in0: "colliding_member_0 \<in> {colliding_member_0, colliding_member_1}"
    and in1: "colliding_member_1 \<in> {colliding_member_0, colliding_member_1}"
    by simp_all
  from generated_member_core [OF gen in0 e0] obtain a
    where a: "a \<in> {colliding_member_0, colliding_member_1}" "ID a = ID colliding_member_0"
      "Services c (core_name colliding_member_0) = Some (final_core stack_colliding a)"
    by blast
  from a(1,2) have "a = colliding_member_0" by (auto simp: id0 id1)
  with a(3) have s1: "Services c ''firefly_core_0'' = Some (final_core stack_colliding colliding_member_0)"
    by (simp add: core_name_def id0)
  from generated_member_core [OF gen in1 e1] obtain b
    where b: "b \<in> {colliding_member_0, colliding_member_1}" "ID b = ID colliding_member_1"
      "Services c (core_name colliding_member_1) = Some (final_core stack_colliding b)"
    by blast
  from b(1,2) have "b = colliding_member_1" by (auto simp: id0 id1)
  with b(3) have s2: "Services c ''firefly_core_1'' = Some (final_core stack_colliding colliding_member_1)"
    by (simp add: core_name_def id1)
  have p: "host_port (Ports (final_core stack_colliding colliding_member_0) ! 1)
             = host_port (Ports (final_core stack_colliding colliding_member_1) ! 0)"
    by (simp add: Ports_core_service colliding_member_0_def colliding_member_1_def)
  have l: "1 < length (Ports (final_core stack_colliding colliding_member_0))"
      "0 < length (Ports (final_core stack_colliding colliding_member_1))"
    by (simp_all add: Ports_core_service)
  have d: "distinct (map ExposedFireflyPort (Members stack_colliding))"
    "distinct (map ExposedFireflyAdminPort (Members stack_colliding))"
    by (simp_all add: stack_colliding_def colliding_member_0_def colliding_member_1_def)
  from c s1 s2 p l have "\<exists>c s1 s2. CreateDockerCompose stack_colliding = Inr c \<and>
      Services c ''firefly_core_0'' = Some s1 \<and> Services c ''firefly_core_1'' = Some s2 \<and>
      1 < length (Ports s1) \<and> 0 < length (Ports s2) \<and>
      host_port (Ports s1 ! 1) = host_port (Ports s2 ! 0)"
    by blast
  with stack_colliding_derived d show ?thesis by blast
qed

theorem host_ports_distinct_witness:
  "distinct (concat (map member_ports (Members stack_two_postgres))) \<and>
   (\<exists>c s1 s2. CreateDockerCompose stack_two_postgres = Inr c \<and>
      Services c ''firefly_core_0'' = Some s1 \<and> Services c ''postgres_1'' = Some s2 \<and>
      1 < length (Ports s1) \<and> 0 < length (Ports s2) \<and>
      host_port (Ports s1 ! 1) \<noteq> host_port (Ports s2 ! 0))"
proof -
  let ?m0 = "mk_member ''0'' 5000 5100 False"
  let ?m1 = "mk_member ''1'' 5001 5200 False"
  have ms: "set (Members stack_two_postgres) = {?m0, ?m1}"
    by (simp add: stack_two_postgres_def)
  have db: "Database stack_two_postgres = ''postgres''"
    by (simp add: stack_two_postgres_def)
  have d: "distinct (concat (map member_ports (Members stack_two_postgres)))"
    by (simp add: stack_two_postgres_def mk_member_def member_ports_def)
  from stack_two_postgres_returns obtain c where c: "CreateDockerCompose stack_two_postgres = Inr c"
    by blast
  from CreateDockerCompose_generated [OF c] have gen: "generated stack_two_postgres {?m0, ?m1} c"
    by (simp only: ms)
  have "\<not> External ?m0" by (simp add: mk_member_def)
  from generated_member_core [OF gen _ this] obtain a
    where a: "Services c (core_name ?m0) = Some (final_core stack_two_postgres a)"
    by auto
  then have s1: "Services c ''firefly_core_0'' = Some (final_core stack_two_postgres a)"
    by (simp add: core_name_def mk_member_def)
  from generated_member_postgres [OF gen _ db, of ?m1] obtain b
    where b: "Services c (postgres_name ?m1) = Some (postgres_service b)"
    by auto
  then have s2: "Services c ''postgres_1'' = Some (postgres_service b)"
    by (simp add: postgres_name_def mk_member_def)
  have l1: "1 < length (Ports (final_core stack_two_postgres a))"
    and l2: "0 < length (Ports (postgres_service b))"
    by (simp_all add: Ports_core_service Ports_postgres_service)
  have ne: "(''firefly_core_0'', 1::nat) \<noteq> (''postgres_1'', 0)" by simp
  from host_ports_distinct [OF c d s1 l1 s2 l2 ne] c s1 s2 l1 l2
  have "\<exists>c s1 s2. CreateDockerCompose stack_two_postgres = Inr c \<and>
      Services c ''firefly_core_0'' = Some s1 \<and> Services c ''postgres_1'' = Some s2 \<and>
      1 < length (Ports s1) \<and> 0 < length (Ports s2) \<and>
      host_port (Ports s1 ! 1) \<noteq> host_port (Ports s2 ! 0)"
    by blast
  with d show ?thesis by blast
qed

section \<open>Supporting facts: the panic in general, and the first colon of a mount\<close>

text \<open>
  The panic of C1 in general: with the postgres database, an external member whose id no
  member that is not external shares makes \<open>CreateDockerCompose\<close> panic, and no run fails
  in another way.
\<close>

lemma core_absent:
  assumes "generated stack M c" and "\<forall>m'\<in>M. ID m' = ID m \<longrightarrow> External m'"
  shows "Services c (core_name m) = None"
proof (rule ccontr)
  assume "Services c (core_name m) \<noteq> None"
  then obtain s where "Services c (core_name m) = Some s" by blast
  from generated_core [OF assms(1) this] assms(2) show False by blast
qed

lemma member_step_panics:
  assumes "generated stack M c" and "Database stack = ''postgres''" and "External m"
    and "\<forall>m'\<in>M. ID m' = ID m \<longrightarrow> External m'"
  shows "member_step stack m c = Inl NilPointerDereference"
  using core_absent [OF assms(1,4)] assms(2,3)
  by (simp add: step_names)

lemma member_step_error:
  assumes "generated stack M c" and "member_step stack m c = Inl e"
  shows "e = NilPointerDereference"
proof (cases "External m")
  case False
  with assms(2) show ?thesis
    by (auto simp: step_names DependsOn_core_service split: if_splits)
next
  case True
  show ?thesis
  proof (cases "Services c (core_name m)")
    case None
    with True assms(2) show ?thesis
      by (auto simp: step_names split: if_splits)
  next
    case (Some s)
    from generated_core [OF assms(1) Some] obtain m0 where "s = final_core stack m0" by blast
    then have "DependsOn s \<noteq> None" by (simp add: DependsOn_final_core)
    with True Some assms(2) show ?thesis
      by (auto simp: step_names split: if_splits)
  qed
qed

lemma members_loop_error:
  "generated stack M c \<Longrightarrow> members_loop stack ms c = Inl e \<Longrightarrow> e = NilPointerDereference"
proof (induction ms arbitrary: M c)
  case Nil
  then show ?case by simp
next
  case (Cons m ms)
  show ?case
  proof (cases "member_step stack m c")
    case (Inl e')
    with Cons.prems(2) have "e' = e" by simp
    with member_step_error [OF Cons.prems(1) Inl] show ?thesis by simp
  next
    case (Inr c1)
    with Cons.prems(2) have "members_loop stack ms c1 = Inl e" by simp
    from Cons.IH [OF member_step_generated [OF Cons.prems(1) Inr] this] show ?thesis .
  qed
qed

lemma members_loop_panics:
  "generated stack M c \<Longrightarrow> Database stack = ''postgres'' \<Longrightarrow> m \<in> set ms \<Longrightarrow> External m \<Longrightarrow>
   \<forall>m'\<in>M \<union> set ms. ID m' = ID m \<longrightarrow> External m' \<Longrightarrow>
   members_loop stack ms c = Inl NilPointerDereference"
proof (induction ms arbitrary: M c)
  case Nil
  then show ?case by simp
next
  case (Cons x xs)
  show ?case
  proof (cases "member_step stack x c")
    case (Inl e)
    from member_step_error [OF Cons.prems(1) Inl] Inl show ?thesis by simp
  next
    case (Inr c1)
    have "x \<noteq> m"
    proof
      assume "x = m"
      from Cons.prems(5) have "\<forall>m'\<in>M. ID m' = ID m \<longrightarrow> External m'" by blast
      from member_step_panics [OF Cons.prems(1,2,4) this] Inr \<open>x = m\<close> show False by simp
    qed
    with Cons.prems(3) have "m \<in> set xs" by simp
    moreover from Cons.prems(5) have "\<forall>m'\<in>insert x M \<union> set xs. ID m' = ID m \<longrightarrow> External m'"
      by simp
    ultimately have "members_loop stack xs c1 = Inl NilPointerDereference"
      using Cons.IH [OF member_step_generated [OF Cons.prems(1) Inr] Cons.prems(2) _ Cons.prems(4)]
      by blast
    with Inr show ?thesis by simp
  qed
qed

lemma CreateDockerCompose_panics:
  assumes "Database stack = ''postgres''" and "m \<in> set (Members stack)" and "External m"
    and "\<forall>m'\<in>set (Members stack). ID m' = ID m \<longrightarrow> External m'"
  shows "CreateDockerCompose stack = Inl NilPointerDereference"
proof -
  have "generated stack {} \<lparr> Version = ''2.1'', Services = Map.empty, TopVolumes = {} \<rparr>"
    by (simp add: generated_def)
  from members_loop_panics [OF this assms(1,2,3)] assms(4) show ?thesis
    by (simp add: CreateDockerCompose_def)
qed

text \<open>
  The volume name of a mount, for ids without a colon: what precedes the first colon of the
  mount is the volume name as well.
\<close>

lemma takeWhile_upto: "c \<notin> set xs \<Longrightarrow> takeWhile (\<lambda>x. x \<noteq> c) (xs @ c # ys) = xs"
  by (induction xs) auto

lemma emitted_volume_first_colon:
  assumes "emitted stack m n = Some s" and "e \<in> set (Volumes s)" and "CHR '':'' \<notin> set (ID m)"
  shows "takeWhile (\<lambda>c. c \<noteq> CHR '':'') e = volume_name e"
proof -
  have first: "\<And>p path. CHR '':'' \<notin> set p \<Longrightarrow> CHR '':'' \<notin> set path \<Longrightarrow>
      takeWhile (\<lambda>c. c \<noteq> CHR '':'') (p @ ID m @ CHR '':'' # path)
        = volume_name (p @ ID m @ CHR '':'' # path)"
  proof -
    fix p path :: string
    assume p: "CHR '':'' \<notin> set p" and path: "CHR '':'' \<notin> set path"
    from p assms(3) have "CHR '':'' \<notin> set (p @ ID m)" by simp
    from takeWhile_upto [OF this, of path] volume_name_mount3 [OF path, of p "ID m"]
    show "takeWhile (\<lambda>c. c \<noteq> CHR '':'') (p @ ID m @ CHR '':'' # path)
        = volume_name (p @ ID m @ CHR '':'' # path)" by simp
  qed
  have c1: "takeWhile (\<lambda>c. c \<noteq> CHR '':'') (''firefly_core_'' @ ID m @ '':/etc/firefly'')
              = volume_name (''firefly_core_'' @ ID m @ '':/etc/firefly'')"
    by (rule first) simp_all
  have c2: "takeWhile (\<lambda>c. c \<noteq> CHR '':'') (''postgres_'' @ ID m @ '':/var/lib/postgresql/data'')
              = volume_name (''postgres_'' @ ID m @ '':/var/lib/postgresql/data'')"
    by (rule first) simp_all
  have c3: "takeWhile (\<lambda>c. c \<noteq> CHR '':'') (''ipfs_staging_'' @ ID m @ '':/export'')
              = volume_name (''ipfs_staging_'' @ ID m @ '':/export'')"
    by (rule first) simp_all
  have c4: "takeWhile (\<lambda>c. c \<noteq> CHR '':'') (''ipfs_data_'' @ ID m @ '':/data/ipfs'')
              = volume_name (''ipfs_data_'' @ ID m @ '':/data/ipfs'')"
    by (rule first) simp_all
  have c5: "takeWhile (\<lambda>c. c \<noteq> CHR '':'') (''dataexchange_'' @ ID m @ '':/data'')
              = volume_name (''dataexchange_'' @ ID m @ '':/data'')"
    by (rule first) simp_all
  from emitted_cases [OF assms(1)]
  consider "s = final_core stack m" | "s = postgres_service m" | "s = ipfs_service stack m"
    | "s = dataexchange_service m" by blast
  then show ?thesis
  proof cases
    case 1
    with assms(2) have "e = ''firefly_core_'' @ ID m @ '':/etc/firefly''"
      by (simp add: core_service_def)
    with c1 show ?thesis by (simp only:)
  next
    case 2
    with assms(2) have "e = ''postgres_'' @ ID m @ '':/var/lib/postgresql/data''"
      by (simp add: postgres_service_def)
    with c2 show ?thesis by (simp only:)
  next
    case 3
    with assms(2) have "e = ''ipfs_staging_'' @ ID m @ '':/export''
        \<or> e = ''ipfs_data_'' @ ID m @ '':/data/ipfs''"
      by (simp add: ipfs_service_def)
    with c3 c4 show ?thesis by (elim disjE) (simp_all only:)
  next
    case 4
    with assms(2) have "e = ''dataexchange_'' @ ID m @ '':/data''"
      by (simp add: dataexchange_service_def)
    with c5 show ?thesis by (simp only:)
  qed
qed


lemma volume_name_first_colon:
  assumes "CreateDockerCompose stack = Inr c" and "Services c n = Some s"
    and "e \<in> set (Volumes s)" and "\<forall>m\<in>set (Members stack). CHR '':'' \<notin> set (ID m)"
  shows "takeWhile (\<lambda>c. c \<noteq> CHR '':'') e = volume_name e"
proof -
  from CreateDockerCompose_generated [OF assms(1)] assms(2)
  obtain m where m: "m \<in> set (Members stack)" "emitted stack m n = Some s"
    unfolding generated_def by blast
  from m(1) assms(4) have "CHR '':'' \<notin> set (ID m)" by blast
  from emitted_volume_first_colon [OF m(2) assms(3) this] show ?thesis .
qed

section \<open>Supporting facts: parsing what was printed\<close>

text \<open>
  \<open>Atoi\<close> reads back what \<open>%d\<close> prints, for every value of a 64-bit \<open>int\<close>.
\<close>

lemma is_digit_not_plus: "is_digit c \<Longrightarrow> c \<noteq> CHR ''+''"
  by (auto simp: is_digit_def)

lemma hd_digits_not_sign: "hd (digits n) \<noteq> CHR ''-'' \<and> hd (digits n) \<noteq> CHR ''+''"
  using digits_all_digit [of n] digits_not_Nil [of n] is_digit_not_minus is_digit_not_plus
  by (cases "digits n") auto

lemma Atoi_fmt_d:
  assumes "- (2 ^ 63) \<le> i" and "i < 2 ^ 63"
  shows "Atoi (fmt_d i) = (i, None)"
proof (cases "i < 0")
  case True
  then have "int (digits_value (digits (nat (- i)))) = - i"
    by (simp add: digits_value_digits)
  with True assms(1) show ?thesis
    by (simp add: Atoi_def fmt_d_def digits_not_Nil digits_all_digit Let_def)
next
  case False
  then have "int (digits_value (digits (nat i))) = i"
    by (simp add: digits_value_digits)
  with False assms(2) hd_digits_not_sign [of "nat i"] show ?thesis
    by (simp add: Atoi_def fmt_d_def digits_not_Nil digits_all_digit Let_def)
qed

end
